theory Spec2Isabelle
  imports Complex_Main
begin

section \<open>RequestQueue (src/core/RequestQueue.ts)\<close>

text \<open>
  JavaScript numbers are modelled as HOL reals: every arithmetic operation is exact.
  The configuration handed to the constructor is \<open>AppConfig['performance'] & AppConfig['retry']\<close>;
  the fields the queue reads are kept under their source names.
\<close>

record config =
  maxConcurrent :: nat
  requestDelay :: real
  batchSize :: nat
  maxRetries :: nat
  backoffMultiplier :: real
  maxDelay :: real

text \<open>The defaults of \<open>ConfigManager.getDefaultConfig\<close> (src/config/index.ts).\<close>

definition defaultConfig :: config where
  "defaultConfig = \<lparr> maxConcurrent = 3, requestDelay = 1500, batchSize = 5,
     maxRetries = 3, backoffMultiplier = 2, maxDelay = 10000 \<rparr>"

subsection \<open>calculateBackoff\<close>

text \<open>
  \<^verbatim>\<open>
  private calculateBackoff(attempt: number): number {
    const baseDelay = 1000;
    const maxDelay = this.config.maxDelay;
    const delay = Math.min(baseDelay * Math.pow(this.config.backoffMultiplier, attempt), maxDelay);
    const jitter = Math.random() * 0.1 * delay;
    return delay + jitter;
  }
  \<close>
  \<open>Math.random()\<close> is the extra argument \<open>rnd\<close>, a number with \<open>0 \<le> rnd < 1\<close>.
  The attempt number comes from p-retry and counts from 1. \<open>backoffDelay\<close> is the
  value of the local \<open>delay\<close>, before the jitter is added.
\<close>

definition baseDelay :: real where
  "baseDelay = 1000"

definition backoffDelay :: "config \<Rightarrow> nat \<Rightarrow> real" where
  "backoffDelay cfg attempt = min (baseDelay * backoffMultiplier cfg ^ attempt) (maxDelay cfg)"

definition calculateBackoff :: "config \<Rightarrow> real \<Rightarrow> nat \<Rightarrow> real" where
  "calculateBackoff cfg rnd attempt =
     (let delay = backoffDelay cfg attempt;
          jitter = rnd * 0.1 * delay
      in delay + jitter)"

text \<open>
  The sibling retry loops of the repository, which also count attempts from 1:
  \<open>ErrorHandler.withRetry\<close> (src/core/ErrorHandler.ts) computes
  \<open>Math.min(1000 * Math.pow(backoffMultiplier, attempt - 1), maxDelay)\<close>.
\<close>

definition withRetry_delay :: "real \<Rightarrow> real \<Rightarrow> nat \<Rightarrow> real" where
  "withRetry_delay multiplier maxDelay' attempt =
     min (1000 * multiplier ^ (attempt - 1)) maxDelay'"

subsection \<open>Errors, tasks and the queue's state\<close>

text \<open>
  The errors a task can reject with, all instances of \<open>Error\<close>: a plain
  \<open>Error(message)\<close>; a \<open>TypeError(message)\<close>, with the answer the is-network-error
  package gives for it (p-retry asks); or the \<open>RateLimitError(message, retryAfter?)\<close> of
  src/types/index.ts.
\<close>

datatype js_error = Error string | TypeError string bool | RateLimitError string "real option"

fun error_message :: "js_error \<Rightarrow> string" where
  "error_message (Error msg) = msg"
| "error_message (TypeError msg isNetworkError) = msg"
| "error_message (RateLimitError msg retryAfter) = msg"

text \<open>
  A task is \<open>() => Promise<T>\<close>. It is called once per attempt and may settle differently
  each time: \<open>taskFn n\<close> is how the \<open>n\<close>-th call settles, \<open>Inr\<close> the value it fulfils
  with, \<open>Inl\<close> the error it rejects with.
\<close>

type_synonym 'a task = "nat \<Rightarrow> js_error + 'a"

text \<open>
  The state of a \<open>RequestQueue\<close>: its three maps; \<open>clock\<close>, the value \<open>Date.now()\<close>
  returns; \<open>randoms\<close>, the values the coming calls of \<open>Math.random()\<close> return; and
  \<open>dispatched\<close>, a log with one entry (destination key, timestamp) for every return of
  \<open>enforceRateLimit\<close>, oldest first. Time passes only in \<open>sleep\<close>, and a timer fires
  exactly when it is due.

  \<open>RequestQueue\<close> is an \<open>EventEmitter\<close>: \<open>errorListeners\<close> counts the listeners
  registered on it for the \<open>'error'\<close> event (the repository registers none:
  \<open>BaseManager.setupQueueListeners\<close> listens to \<open>'active'\<close> and \<open>'taskError'\<close> only).
  \<open>uncaught\<close> holds the errors that \<open>this.emit('error', error)\<close> has thrown for want of
  a listener.
\<close>

record queue =
  rateLimitMap :: "string \<rightharpoonup> real"
  requestCounts :: "string \<rightharpoonup> real"
  lastRequestTime :: "string \<rightharpoonup> real"
  clock :: real
  randoms :: "real list"
  dispatched :: "(string \<times> real) list"
  errorListeners :: nat
  uncaught :: "js_error list"

definition newQueue :: "real \<Rightarrow> real list \<Rightarrow> queue" where
  "newQueue now rs = \<lparr> rateLimitMap = Map.empty, requestCounts = Map.empty,
     lastRequestTime = Map.empty, clock = now, randoms = rs, dispatched = [],
     errorListeners = 0, uncaught = [] \<rparr>"

text \<open>\<open>requestQueue.on('error', listener)\<close>, under the name \<open>onError\<close>.\<close>

definition onError :: "queue \<Rightarrow> queue" where
  "onError q = q\<lparr>errorListeners := errorListeners q + 1\<rparr>"

definition sleep :: "real \<Rightarrow> queue \<Rightarrow> queue" where
  "sleep ms q = q\<lparr>clock := clock q + max ms 0\<rparr>"

definition Math_random :: "queue \<Rightarrow> real \<times> queue" where
  "Math_random q = (case randoms q of [] \<Rightarrow> (0, q) | r # rs \<Rightarrow> (r, q\<lparr>randoms := rs\<rparr>))"

subsection \<open>getDomain\<close>

text \<open>
  \<open>new URL(url).hostname\<close> belongs to the platform. \<open>URL_hostname\<close> models it for
  absolute URLs \<open>scheme://[userinfo@]host[:port][/path][?query][#fragment]\<close>: the
  constructor throws (\<open>None\<close>) when the text does not start with a scheme (a letter, then
  letters, digits, \<open>+\<close>, \<open>-\<close> or \<open>.\<close>, then a colon), as it does for every text without a
  colon.
\<close>

definition is_alpha :: "char \<Rightarrow> bool" where
  "is_alpha c = (let n = of_char c :: nat in (65 \<le> n \<and> n \<le> 90) \<or> (97 \<le> n \<and> n \<le> 122))"

definition is_scheme_char :: "char \<Rightarrow> bool" where
  "is_scheme_char c = (let n = of_char c :: nat in
     is_alpha c \<or> (48 \<le> n \<and> n \<le> 57) \<or> c = CHR ''+'' \<or> c = CHR ''-'' \<or> c = CHR ''.'')"

definition URL_hostname :: "string \<Rightarrow> string option" where
  "URL_hostname url =
     (let scheme = takeWhile (\<lambda>c. c \<noteq> CHR '':'') url;
          rest = dropWhile (\<lambda>c. c \<noteq> CHR '':'') url
      in if rest = [] \<or> scheme = [] \<or> \<not> is_alpha (hd scheme) \<or> \<not> list_all is_scheme_char scheme
         then None
         else if take 2 (tl rest) \<noteq> ''//'' then Some []
         else (let authority = takeWhile (\<lambda>c. c \<notin> set ''/?#'') (drop 3 rest);
                   hostport = (if CHR ''@'' \<in> set authority
                               then rev (takeWhile (\<lambda>c. c \<noteq> CHR ''@'') (rev authority))
                               else authority)
               in Some (takeWhile (\<lambda>c. c \<noteq> CHR '':'') hostport)))"

definition getDomain :: "string \<Rightarrow> string" where
  "getDomain url = (case URL_hostname url of Some hostname \<Rightarrow> hostname | None \<Rightarrow> ''unknown'')"

subsection \<open>enforceRateLimit\<close>

text \<open>
  \<^verbatim>\<open>
  private async enforceRateLimit(domain: string): Promise<void> {
    const now = Date.now();
    const lastRequest = this.lastRequestTime.get(domain) || 0;
    const timeSinceLastRequest = now - lastRequest;
    const minimumDelay = this.config.requestDelay;
    if (timeSinceLastRequest < minimumDelay) {
      const waitTime = minimumDelay - timeSinceLastRequest;
      await this.sleep(waitTime);
    }
    this.lastRequestTime.set(domain, Date.now());
    const currentCount = this.requestCounts.get(domain) || 0;
    this.requestCounts.set(domain, currentCount + 1);
  }
  \<close>
  The function runs in two synchronous segments, separated by the \<open>await\<close>:
  \<open>enforceRateLimit_check\<close> reads the clock and the map and decides how long to wait
  (\<open>None\<close>: no wait, the function goes on without suspending);
  \<open>enforceRateLimit_commit\<close> is the rest, run when the timer has fired.
  \<open>enforceRateLimit\<close> is one caller running alone.
\<close>

definition enforceRateLimit_check :: "config \<Rightarrow> string \<Rightarrow> queue \<Rightarrow> real option" where
  "enforceRateLimit_check cfg domain q =
     (let now = clock q;
          lastRequest = (case lastRequestTime q domain of Some t \<Rightarrow> t | None \<Rightarrow> 0);
          timeSinceLastRequest = now - lastRequest;
          minimumDelay = requestDelay cfg
      in if timeSinceLastRequest < minimumDelay
         then Some (minimumDelay - timeSinceLastRequest) else None)"

definition enforceRateLimit_commit :: "string \<Rightarrow> queue \<Rightarrow> queue" where
  "enforceRateLimit_commit domain q =
     (let currentCount = (case requestCounts q domain of Some c \<Rightarrow> c | None \<Rightarrow> 0)
      in q\<lparr>lastRequestTime := (lastRequestTime q)(domain \<mapsto> clock q),
            requestCounts := (requestCounts q)(domain \<mapsto> currentCount + 1),
            dispatched := dispatched q @ [(domain, clock q)]\<rparr>)"

definition enforceRateLimit :: "config \<Rightarrow> string \<Rightarrow> queue \<Rightarrow> queue" where
  "enforceRateLimit cfg domain q =
     (case enforceRateLimit_check cfg domain q of
        None \<Rightarrow> enforceRateLimit_commit domain q
      | Some waitTime \<Rightarrow> enforceRateLimit_commit domain (sleep waitTime q))"

text \<open>
  Several callers at once, as \<open>batch.map(task => this.add(task))\<close> starts them when the
  PQueue has a free slot for each: every caller runs its first segment in the same tick,
  in call order (\<open>startCallers\<close>; a caller that need not wait runs to the end at once),
  and the sleeping callers resume in the order their timers are due (\<open>fireTimers\<close>, over
  the pending timers sorted by due time; timers due together fire in the order they were
  set).
\<close>

fun startCallers :: "config \<Rightarrow> string list \<Rightarrow> queue \<Rightarrow> (real \<times> string) list
    \<Rightarrow> queue \<times> (real \<times> string) list" where
  "startCallers cfg [] q timers = (q, timers)"
| "startCallers cfg (domain # domains) q timers =
     (case enforceRateLimit_check cfg domain q of
        None \<Rightarrow> startCallers cfg domains (enforceRateLimit_commit domain q) timers
      | Some waitTime \<Rightarrow> startCallers cfg domains q (timers @ [(clock q + waitTime, domain)]))"

fun fireTimers :: "(real \<times> string) list \<Rightarrow> queue \<Rightarrow> queue" where
  "fireTimers [] q = q"
| "fireTimers ((due, domain) # timers) q =
     fireTimers timers (enforceRateLimit_commit domain (q\<lparr>clock := max (clock q) due\<rparr>))"

definition concurrentCallers :: "config \<Rightarrow> string list \<Rightarrow> queue \<Rightarrow> queue" where
  "concurrentCallers cfg domains q =
     (case startCallers cfg domains q [] of
        (q1, timers) \<Rightarrow> fireTimers (sort_key fst timers) q1)"

text \<open>
  The invariant of the rate limiter, as a check of a dispatch log: any two consecutive
  dispatches to the key are at least \<open>minDelay\<close> apart.
\<close>

fun spaced :: "real \<Rightarrow> real list \<Rightarrow> bool" where
  "spaced minDelay (t1 # t2 # ts) = (t2 - t1 \<ge> minDelay \<and> spaced minDelay (t2 # ts))"
| "spaced minDelay ts = True"

definition dispatchTimes :: "string \<Rightarrow> queue \<Rightarrow> real list" where
  "dispatchTimes key q = map snd (filter (\<lambda>d. fst d = key) (dispatched q))"

subsection \<open>add\<close>

text \<open>
  The options of \<open>add\<close> that the body reads. \<open>opt_aborted\<close> is \<open>abortSignal?.aborted\<close>;
  the \<open>onProgress\<close> callback and the \<open>taskComplete\<close>/\<open>taskError\<close> events only notify
  listeners and are left out.
\<close>

record add_options =
  opt_priority :: "real option"
  opt_retries :: "nat option"
  opt_url :: "string option"
  opt_aborted :: bool

definition noOptions :: add_options where
  "noOptions = \<lparr> opt_priority = None, opt_retries = None, opt_url = None, opt_aborted = False \<rparr>"

text \<open>Lines 501-509 of \<open>add\<close>: the defaults, and the destination key.\<close>

definition add_retries :: "config \<Rightarrow> add_options \<Rightarrow> nat" where
  "add_retries cfg options = (case opt_retries options of Some r \<Rightarrow> r | None \<Rightarrow> maxRetries cfg)"

definition add_domain :: "add_options \<Rightarrow> string" where
  "add_domain options =
     (let url = (case opt_url options of Some u \<Rightarrow> u | None \<Rightarrow> ''unknown'')
      in getDomain url)"

text \<open>
  The function handed to \<open>pRetry\<close>, for attempt number \<open>attempt\<close> (from 1). It returns how
  the attempt settles and the queue afterwards. \<open>if (error.retryAfter)\<close> tests
  truthiness: an absent or zero \<open>retryAfter\<close> falls back to \<open>calculateBackoff\<close>.
\<close>

definition backoffSleep :: "config \<Rightarrow> nat \<Rightarrow> queue \<Rightarrow> queue" where
  "backoffSleep cfg attempt q =
     (case Math_random q of (rnd, q1) \<Rightarrow> sleep (calculateBackoff cfg rnd attempt) q1)"

definition attemptTask ::
  "config \<Rightarrow> string \<Rightarrow> nat \<Rightarrow> bool \<Rightarrow> 'a task \<Rightarrow> nat \<Rightarrow> queue \<Rightarrow> (js_error + 'a) \<times> queue" where
  "attemptTask cfg domain retries aborted taskFn attempt q =
     (if aborted then (Inl (Error ''Request aborted''), q)
      else (let q1 = enforceRateLimit cfg domain q
            in case taskFn attempt of
                 Inr result \<Rightarrow> (Inr result, q1)
               | Inl error \<Rightarrow>
                   (let isLastAttempt = (attempt = retries + 1)
                    in case error of
                         RateLimitError msg retryAfter \<Rightarrow>
                           (case retryAfter of
                              Some ms \<Rightarrow> (if ms \<noteq> 0 then (Inl error, sleep ms q1)
                                          else (Inl error, backoffSleep cfg attempt q1))
                            | None \<Rightarrow> (Inl error, backoffSleep cfg attempt q1))
                       | _ \<Rightarrow>
                           (if isLastAttempt then (Inl error, q1)
                            else (Inl error, backoffSleep cfg attempt q1)))))"

text \<open>
  \<open>pRetry(input, {retries})\<close> of the p-retry package, version 6, and the \<open>retry\<close>
  package under it (dependencies, not part of the repository). \<open>mainError\<close> is
  \<open>RetryOperation.prototype.mainError\<close>: of the errors collected, one whose message
  occurs most often; the loop takes a later error when its count is at least the
  highest so far.
\<close>

fun mainError_loop :: "js_error list \<Rightarrow> (string \<Rightarrow> nat) \<Rightarrow> js_error option \<Rightarrow> nat
    \<Rightarrow> js_error option" where
  "mainError_loop [] counts mainErr mainErrorCount = mainErr"
| "mainError_loop (error # errors) counts mainErr mainErrorCount =
     (let count = counts (error_message error) + 1;
          counts1 = counts(error_message error := count)
      in if count \<ge> mainErrorCount
         then mainError_loop errors counts1 (Some error) count
         else mainError_loop errors counts1 mainErr mainErrorCount)"

definition mainError :: "js_error list \<Rightarrow> js_error option" where
  "mainError errors = mainError_loop errors (\<lambda>msg. 0) None 0"

text \<open>
  \<open>error instanceof TypeError && !isNetworkError(error)\<close>: such an error is not
  retried.
\<close>

fun notRetried :: "js_error \<Rightarrow> bool" where
  "notRetried (TypeError msg isNetworkError) = (\<not> isNetworkError)"
| "notRetried error = False"

text \<open>
  \<open>pRetry\<close> calls \<open>input\<close> with the attempt number, from 1. A fulfilled attempt
  settles the whole. A rejected attempt with a \<open>TypeError\<close> that is no network error
  rejects the whole at once. Any other rejected attempt is recorded
  (\<open>operation.retry(error)\<close>) and repeated while retries are left, after the package's
  own timeout of \<open>1000 * 2^(attempt - 1)\<close> ms (its defaults: \<open>minTimeout\<close> 1000,
  \<open>factor\<close> 2, no randomizing); when none is left the whole rejects with
  \<open>operation.mainError()\<close>. \<open>errors\<close> are the errors recorded so far, oldest first.
\<close>

fun pRetry :: "(nat \<Rightarrow> queue \<Rightarrow> (js_error + 'a) \<times> queue) \<Rightarrow> nat \<Rightarrow> nat \<Rightarrow> js_error list
    \<Rightarrow> queue \<Rightarrow> (js_error + 'a) \<times> queue" where
  "pRetry input 0 attempt errors q =
     (case input attempt q of
        (Inr result, q1) \<Rightarrow> (Inr result, q1)
      | (Inl error, q1) \<Rightarrow>
          (if notRetried error then (Inl error, q1)
           else (case mainError (errors @ [error]) of
                   Some mainErr \<Rightarrow> (Inl mainErr, q1)
                 | None \<Rightarrow> (Inl error, q1))))"
| "pRetry input (Suc retriesLeft) attempt errors q =
     (case input attempt q of
        (Inr result, q1) \<Rightarrow> (Inr result, q1)
      | (Inl error, q1) \<Rightarrow>
          (if notRetried error then (Inl error, q1)
           else pRetry input retriesLeft (Suc attempt) (errors @ [error])
                  (sleep (1000 * 2 ^ (attempt - 1)) q1)))"

text \<open>
  What the PQueue does with a job that rejects (p-queue 7, \<open>add\<close>): it rejects the
  promise it returned and then emits \<open>'error'\<close>. The listener of
  \<open>setupEventListeners\<close> (lines 441-444) logs the error and emits it again on the
  \<open>RequestQueue\<close>; an \<open>EventEmitter\<close> without a listener for \<open>'error'\<close> throws the
  error it is asked to emit. Thrown inside the PQueue's job, it is an unhandled
  rejection, on which the process ends: src/cli/index.ts calls \<open>process.exit(1)\<close> on
  \<open>unhandledRejection\<close>, and Node does the same by default.
\<close>

definition emitError :: "js_error \<Rightarrow> queue \<Rightarrow> queue" where
  "emitError error q =
     (if errorListeners q = 0 then q\<lparr>uncaught := uncaught q @ [error]\<rparr> else q)"

text \<open>
  \<open>add\<close>, for a caller that runs alone: the PQueue has a free slot and starts the job at
  once. The first \<open>Math.random()\<close> is the one in the task's id. The result is how the
  returned promise settles, and the queue then; a process that is to end has a
  non-empty \<open>uncaught\<close>. The signal's \<open>aborted\<close> flag is taken as it is when \<open>add\<close> is
  called.
\<close>

definition add :: "config \<Rightarrow> 'a task \<Rightarrow> add_options \<Rightarrow> queue \<Rightarrow> (js_error + 'a) \<times> queue" where
  "add cfg taskFn options q =
     (let retries = add_retries cfg options;
          domain = add_domain options;
          q1 = snd (Math_random q)
      in case pRetry (attemptTask cfg domain retries (opt_aborted options) taskFn)
                retries 1 [] q1 of
           (Inr result, q2) \<Rightarrow> (Inr result, q2)
         | (Inl error, q2) \<Rightarrow> (Inl error, emitError error q2))"

subsection \<open>addBatch\<close>

text \<open>
  \<open>batch.map(task => this.add(task))\<close> hands every task of the batch to \<open>add\<close> in one
  tick, and the calls then run interleaved. How a call settles, and whether it leaves
  an error uncaught, depends on its task and on the listeners only, not on the clock
  and the maps the other calls change (\<open>fst_add_any_queue\<close>, \<open>uncaught_add\<close> below):
  each call is therefore taken on the queue as it is when the batch starts.
  \<open>allSettled\<close> gives, in the order of the batch, how each promise settles and the
  queue as that call alone leaves it; of the latter only \<open>uncaught\<close> is used. The
  order in time of the dispatches of a batch is not given by this function (see
  \<open>concurrentCallers\<close>).
\<close>

definition allSettled :: "config \<Rightarrow> 'a task list \<Rightarrow> queue \<Rightarrow> ((js_error + 'a) \<times> queue) list" where
  "allSettled cfg batch q = map (\<lambda>task. add cfg task noOptions q) batch"

definition fulfilledValues :: "('e + 'a) list \<Rightarrow> 'a list" where
  "fulfilledValues batchResults =
     List.map_filter (\<lambda>r. case r of Inr v \<Rightarrow> Some v | Inl e \<Rightarrow> None) batchResults"

definition rejectedReasons :: "('e + 'a) list \<Rightarrow> 'e list" where
  "rejectedReasons batchResults =
     List.map_filter (\<lambda>r. case r of Inl e \<Rightarrow> Some e | Inr v \<Rightarrow> None) batchResults"

text \<open>
  A call either returns, or the process ends: in the tick in which an error is left
  uncaught, which is before the call returns or, when that error is the last of the
  last batch to settle, the tick in which its promise resolves. What else runs in that
  last tick is not followed.
\<close>

datatype 'a completion = Returns 'a | ProcessExits

text \<open>
  The loop's variables: \<open>results\<close>; the calls of \<open>onBatchComplete\<close> made so far
  (\<open>(successfulResults, batchIndex)\<close>, oldest first; the callback is taken not to
  throw); and the pauses slept between batches so far.
\<close>

type_synonym 'a batch_state = "'a list \<times> ('a list \<times> nat) list \<times> real list"

text \<open>
  One pass through the body of the \<open>for\<close> loop, at index \<open>i\<close>. The batch size is a
  natural number.
\<close>

definition addBatch_body ::
  "config \<Rightarrow> queue \<Rightarrow> 'a task list \<Rightarrow> nat \<Rightarrow> real \<Rightarrow> nat \<Rightarrow> 'a batch_state
    \<Rightarrow> 'a batch_state completion" where
  "addBatch_body cfg q tasks batchSize' delayBetweenBatches i st =
     (case st of (results, calls, pauses) \<Rightarrow>
        (let batch = take batchSize' (drop i tasks);
             batchIndex = i div batchSize';
             settled = allSettled cfg batch q;
             batchResults = map fst settled
         in if list_ex (\<lambda>s. uncaught (snd s) \<noteq> []) settled then ProcessExits
            else (let successfulResults = fulfilledValues batchResults;
                      failedResults = rejectedReasons batchResults;
                      pause = (if i + batchSize' < length tasks \<and> delayBetweenBatches > 0
                               then [delayBetweenBatches] else [])
                  in Returns (results @ successfulResults,
                              calls @ [(successfulResults, batchIndex)],
                              pauses @ pause))))"

text \<open>
  \<open>for (let i = 0; i < tasks.length; i += batchSize)\<close>. With \<open>batchSize = 0\<close> and a
  task to run the loop never ends: the result is \<open>None\<close>.
\<close>

partial_function (option) addBatch_loop ::
  "config \<Rightarrow> queue \<Rightarrow> 'a task list \<Rightarrow> nat \<Rightarrow> real \<Rightarrow> nat \<Rightarrow> 'a batch_state
    \<Rightarrow> 'a batch_state completion option" where
  "addBatch_loop cfg q tasks batchSize' delayBetweenBatches i st =
     (if i < length tasks
      then (case addBatch_body cfg q tasks batchSize' delayBetweenBatches i st of
              ProcessExits \<Rightarrow> Some ProcessExits
            | Returns st1 \<Rightarrow>
                addBatch_loop cfg q tasks batchSize' delayBetweenBatches (i + batchSize') st1)
      else Some (Returns st))"

text \<open>
  \<open>addBatch(tasks, {batchSize, delayBetweenBatches})\<close>; an option left out takes its
  default from the configuration. The promise resolves with \<open>results\<close>, the first
  component.
\<close>

definition addBatch ::
  "config \<Rightarrow> 'a task list \<Rightarrow> nat option \<Rightarrow> real option \<Rightarrow> queue
    \<Rightarrow> 'a batch_state completion option" where
  "addBatch cfg tasks optBatchSize optDelay q =
     (let batchSize' = (case optBatchSize of Some b \<Rightarrow> b | None \<Rightarrow> batchSize cfg);
          delayBetweenBatches = (case optDelay of Some d \<Rightarrow> d | None \<Rightarrow> requestDelay cfg)
      in addBatch_loop cfg q tasks batchSize' delayBetweenBatches 0 ([], [], []))"

subsection \<open>destroy\<close>


section \<open>ProgressTracker (src/services/ProgressTracker.ts)\<close>

text \<open>
  \<open>DownloadStatus\<close> is the enum of src/types/index.ts; it has five members.
\<close>

datatype DownloadStatus = PENDING | DOWNLOADING | COMPLETED | FAILED | PAUSED

text \<open>
  \<open>ProgressEntry\<close>, field by field. Dates are their \<open>getTime()\<close> value in milliseconds.
  \<open>lastDownloadedBytes\<close> is the untyped property that \<open>calculateSpeed\<close> reads and writes
  through \<open>(entry as any)\<close>; it is absent (\<open>None\<close>) until the first write.
\<close>

record ProgressEntry =
  entry_id :: string
  seriesName :: string
  episodeName :: string
  status :: DownloadStatus
  currentPage :: real
  totalPages :: real
  downloadedBytes :: real
  totalBytes :: real
  startTime :: real
  lastUpdate :: real
  speed :: real
  errors :: "string list"
  lastDownloadedBytes :: "real option"

text \<open>
  \<open>DownloadProgress\<close>, the payload of every progress event. The source renders speed and
  eta as strings (\<open>formatSpeed\<close>, \<open>formatETA\<close>); the payload here carries the numbers
  that are rendered.
\<close>

record DownloadProgress =
  p_seriesName :: string
  p_episodeName :: string
  p_currentPage :: real
  p_totalPages :: real
  p_downloadedBytes :: real
  p_totalBytes :: real
  p_speed :: real
  p_eta :: real
  p_percentage :: real

text \<open>
  The tracker: the two maps of the class, and the events it has emitted, oldest first.
  Log lines are not events and are not part of the state.
\<close>

record tracker =
  activeProgress :: "string \<rightharpoonup> ProgressEntry"
  completedProgress :: "string \<rightharpoonup> ProgressEntry"
  emitted :: "(string \<times> DownloadProgress) list"

definition emit :: "string \<Rightarrow> DownloadProgress \<Rightarrow> tracker \<Rightarrow> tracker" where
  "emit name payload t = t\<lparr>emitted := emitted t @ [(name, payload)]\<rparr>"

text \<open>
  \<open>calculateSpeed\<close>: \<open>entry.downloadedBytes - (entry as any).lastDownloadedBytes || 0\<close>
  is \<open>0\<close> when the property is still undefined (the difference is NaN, which is falsy).
\<close>

definition calculateSpeed :: "real \<Rightarrow> ProgressEntry \<Rightarrow> ProgressEntry" where
  "calculateSpeed now entry =
     (let timeDiff = (now - lastUpdate entry) / 1000;
          entry1 =
            (if timeDiff > 0 then
               (let bytesDiff = (case lastDownloadedBytes entry of
                                   None \<Rightarrow> 0
                                 | Some l \<Rightarrow> downloadedBytes entry - l)
                in entry\<lparr>speed := bytesDiff / timeDiff,
                          lastDownloadedBytes := Some (downloadedBytes entry)\<rparr>)
             else entry)
      in entry1\<lparr>lastUpdate := now\<rparr>)"

definition calculateETA :: "ProgressEntry \<Rightarrow> real" where
  "calculateETA entry =
     (if speed entry \<le> 0 \<or> currentPage entry \<ge> totalPages entry then 0
      else (let remainingPages = totalPages entry - currentPage entry;
                avgTimePerPage = (if speed entry > 0 then 1000 / speed entry else 0)
            in remainingPages * avgTimePerPage))"

text \<open>\<open>Math.round(x)\<close> is \<open>floor(x + 0.5)\<close>.\<close>

definition Math_round :: "real \<Rightarrow> real" where
  "Math_round x = of_int \<lfloor>x + 1 / 2\<rfloor>"

definition createProgressObject :: "ProgressEntry \<Rightarrow> DownloadProgress" where
  "createProgressObject entry =
     (let percentage = (if totalPages entry > 0
                        then (currentPage entry / totalPages entry) * 100 else 0);
          eta = calculateETA entry
      in \<lparr> p_seriesName = seriesName entry,
           p_episodeName = episodeName entry,
           p_currentPage = currentPage entry,
           p_totalPages = totalPages entry,
           p_downloadedBytes = downloadedBytes entry,
           p_totalBytes = totalBytes entry,
           p_speed = speed entry,
           p_eta = eta,
           p_percentage = Math_round (percentage * 100) / 100 \<rparr>)"

text \<open>
  The public methods. Each takes the tracker and returns the tracker after the call; \<open>now\<close>
  is the value of \<open>new Date()\<close> during the call.
\<close>

definition start :: "string \<Rightarrow> real \<Rightarrow> string \<Rightarrow> string \<Rightarrow> real \<Rightarrow> tracker \<Rightarrow> tracker" where
  "start ident totalPages' seriesName' episodeName' now t =
     (let entry = \<lparr> entry_id = ident, seriesName = seriesName', episodeName = episodeName',
                      status = PENDING, currentPage = 0, totalPages = totalPages',
                      downloadedBytes = 0, totalBytes = 0, startTime = now, lastUpdate = now,
                      speed = 0, errors = [], lastDownloadedBytes = None \<rparr>
      in emit ''progressStart'' (createProgressObject entry)
           (t\<lparr>activeProgress := (activeProgress t)(ident \<mapsto> entry)\<rparr>))"

text \<open>The optional third argument of \<open>updateProgress\<close>.\<close>

record additionalData =
  ad_downloadedBytes :: "real option"
  ad_totalBytes :: "real option"
  ad_error :: "string option"

text \<open>
  \<open>if (additionalData?.error)\<close> tests truthiness: an empty message is not appended.
  The entry is mutated in place while it sits in the active map, so the map holds the
  updated entry when the call returns.
\<close>

definition updateProgress ::
  "string \<Rightarrow> real \<Rightarrow> additionalData option \<Rightarrow> real \<Rightarrow> tracker \<Rightarrow> tracker" where
  "updateProgress ident currentPage' ad now t =
     (case activeProgress t ident of
        None \<Rightarrow> t
      | Some entry \<Rightarrow>
          (let e1 = entry\<lparr>currentPage := currentPage', status := DOWNLOADING\<rparr>;
               e2 = (case Option.bind ad ad_downloadedBytes of
                       Some b \<Rightarrow> e1\<lparr>downloadedBytes := b\<rparr> | None \<Rightarrow> e1);
               e3 = (case Option.bind ad ad_totalBytes of
                       Some b \<Rightarrow> e2\<lparr>totalBytes := b\<rparr> | None \<Rightarrow> e2);
               e4 = (case Option.bind ad ad_error of
                       Some msg \<Rightarrow> (if msg \<noteq> [] then e3\<lparr>errors := errors e3 @ [msg]\<rparr> else e3)
                     | None \<Rightarrow> e3);
               e5 = calculateSpeed now e4
           in emit ''progressUpdate'' (createProgressObject e5)
                (t\<lparr>activeProgress := (activeProgress t)(ident \<mapsto> e5)\<rparr>)))"

text \<open>\<open>complete(id, success)\<close>, under the name \<open>completeProgress\<close>.\<close>

definition completeProgress :: "string \<Rightarrow> bool \<Rightarrow> real \<Rightarrow> tracker \<Rightarrow> tracker" where
  "completeProgress ident success now t =
     (case activeProgress t ident of
        None \<Rightarrow> t
      | Some entry \<Rightarrow>
          (let e1 = entry\<lparr>status := (if success then COMPLETED else FAILED), lastUpdate := now\<rparr>;
               e2 = (if success then e1\<lparr>currentPage := totalPages e1\<rparr> else e1);
               t1 = emit ''progressComplete'' (createProgressObject e2) t
           in t1\<lparr>completedProgress := (completedProgress t1)(ident \<mapsto> e2),
                  activeProgress := (activeProgress t1)(ident := None)\<rparr>))"

definition pause :: "string \<Rightarrow> tracker \<Rightarrow> tracker" where
  "pause ident t =
     (case activeProgress t ident of
        None \<Rightarrow> t
      | Some entry \<Rightarrow>
          (let e1 = entry\<lparr>status := PAUSED\<rparr>
           in emit ''progressPause'' (createProgressObject e1)
                (t\<lparr>activeProgress := (activeProgress t)(ident \<mapsto> e1)\<rparr>)))"

definition resume :: "string \<Rightarrow> tracker \<Rightarrow> tracker" where
  "resume ident t =
     (case activeProgress t ident of
        None \<Rightarrow> t
      | Some entry \<Rightarrow>
          (let e1 = entry\<lparr>status := DOWNLOADING\<rparr>
           in emit ''progressResume'' (createProgressObject e1)
                (t\<lparr>activeProgress := (activeProgress t)(ident \<mapsto> e1)\<rparr>)))"

definition cancel :: "string \<Rightarrow> tracker \<Rightarrow> tracker" where
  "cancel ident t =
     (case activeProgress t ident of
        None \<Rightarrow> t
      | Some entry \<Rightarrow>
          (let e1 = entry\<lparr>status := FAILED\<rparr>;
               t1 = emit ''progressCancel'' (createProgressObject e1) t
           in t1\<lparr>completedProgress := (completedProgress t1)(ident \<mapsto> e1),
                  activeProgress := (activeProgress t1)(ident := None)\<rparr>))"

text \<open>
  A call of one of the five mutating methods, as data, so that a history of calls is a
  list. \<open>start\<close> is not among them: it creates a record.
\<close>

datatype mutation =
    UpdateProgress string real "additionalData option" real
  | Complete string bool real
  | Pause string
  | Resume string
  | Cancel string

fun apply_mutation :: "mutation \<Rightarrow> tracker \<Rightarrow> tracker" where
  "apply_mutation (UpdateProgress ident page ad now) t = updateProgress ident page ad now t"
| "apply_mutation (Complete ident success now) t = completeProgress ident success now t"
| "apply_mutation (Pause ident) t = pause ident t"
| "apply_mutation (Resume ident) t = resume ident t"
| "apply_mutation (Cancel ident) t = cancel ident t"

fun apply_mutations :: "mutation list \<Rightarrow> tracker \<Rightarrow> tracker" where
  "apply_mutations [] t = t"
| "apply_mutations (m # ms) t = apply_mutations ms (apply_mutation m t)"

definition emptyTracker :: tracker where
  "emptyTracker = \<lparr> activeProgress = Map.empty, completedProgress = Map.empty, emitted = [] \<rparr>"

section \<open>ImageDownloader.downloadSingleImage (src/services/ImageDownloader.ts)\<close>

text \<open>
  The file system, as far as the method sees it: the size in bytes of every file that
  exists, and the paths at which \<open>unlinkSync\<close> throws.
\<close>

record filesystem =
  files :: "string \<rightharpoonup> real"
  undeletable :: "string list"

definition existsSync :: "filesystem \<Rightarrow> string \<Rightarrow> bool" where
  "existsSync fs path = (files fs path \<noteq> None)"

text \<open>\<open>unlinkSync\<close>: \<open>None\<close> when it throws.\<close>

definition unlinkSync :: "filesystem \<Rightarrow> string \<Rightarrow> filesystem option" where
  "unlinkSync fs path =
     (if path \<in> set (undeletable fs) \<or> files fs path = None then None
      else Some (fs\<lparr>files := (files fs)(path := None)\<rparr>))"

text \<open>
  What is thrown inside the \<open>try\<close> block, by its name and message; \<open>`${error}`\<close> renders
  it as \<open>name: message\<close>. \<open>DownloadError\<close> is the class of src/types/index.ts with its
  fields \<open>message\<close>, \<open>code\<close>, \<open>url\<close> and \<open>filePath\<close>.
\<close>

datatype thrown = Thrown string string

fun toString :: "thrown \<Rightarrow> string" where
  "toString (Thrown name message) = name @ '': '' @ message"

datatype download_error = DownloadError string string "string option" "string option"

text \<open>
  The outcome of the \<open>axios\<close> request: it throws (network error, timeout, a status that is
  not 2xx), or it gives a response with headers and a body stream. The stream delivers
  \<open>chunks\<close> (the length of each) and then ends, or fails with \<open>stream_error\<close> after them.
  \<open>content_length\<close> is \<open>parseInt(response.headers['content-length'] || '0')\<close>.
\<close>

record response =
  content_type :: "string option"
  content_length :: real
  chunks :: "real list"
  stream_error :: "thrown option"

datatype axios_outcome = AxiosThrows thrown | AxiosResponse response

text \<open>\<open>String.prototype.includes\<close>, under the name \<open>string_includes\<close>.\<close>

fun string_includes :: "string \<Rightarrow> string \<Rightarrow> bool" where
  "string_includes [] search = (search = [])"
| "string_includes (c # cs) search =
     (take (length search) (c # cs) = search \<or> string_includes cs search)"

text \<open>
  The options read by the method, and its result \<open>{ success, downloadedBytes }\<close>.
  \<open>sourceFormat\<close> stands for \<open>this.getImageFormat(imageSource.url)\<close> and \<open>filepath\<close> for
  \<open>join(episodePath, filename)\<close>; both are computed from the arguments before the request.
\<close>

record download_options =
  skipExisting :: bool
  imageFormat :: "string option"

record download_result =
  result_success :: bool
  result_downloadedBytes :: real

text \<open>The argument of one \<open>onProgress\<close> call: downloadedBytes, totalBytes, percentage.\<close>

type_synonym progress_call = "real \<times> real \<times> real"

text \<open>
  \<open>response.data.on('data', ...)\<close>: the running total after each chunk; \<open>onProgress\<close> is
  called when the declared length is positive.
\<close>

fun onData :: "real \<Rightarrow> real \<Rightarrow> real list \<Rightarrow> real \<times> progress_call list" where
  "onData contentLength downloaded [] = (downloaded, [])"
| "onData contentLength downloaded (chunk # rest) =
     (let downloaded1 = downloaded + chunk;
          calls = (if contentLength > 0
                   then [(downloaded1, contentLength, (downloaded1 / contentLength) * 100)]
                   else [])
      in case onData contentLength downloaded1 rest of
           (received, calls1) \<Rightarrow> (received, calls @ calls1))"

text \<open>
  \<open>convertImage\<close>: \<open>outputPath = filepath.replace(/\.[^.]+$/, `.${format}`)\<close>; \<open>sharp\<close> is
  the outcome of \<open>sharp(filepath)...toFile(outputPath)\<close>, the size of the file written or
  \<open>None\<close> when it throws. Every error is caught inside the method.
\<close>

definition replaceExtension :: "string \<Rightarrow> string \<Rightarrow> string" where
  "replaceExtension filepath format =
     (let ext = rev (takeWhile (\<lambda>c. c \<noteq> CHR ''.'') (rev filepath))
      in if ext \<noteq> [] \<and> length ext < length filepath
         then take (length filepath - length ext) filepath @ format
         else filepath)"

definition convertImage :: "real option \<Rightarrow> string \<Rightarrow> string \<Rightarrow> filesystem \<Rightarrow> filesystem" where
  "convertImage sharp filepath format fs =
     (let outputPath = replaceExtension filepath format
      in case sharp of
           None \<Rightarrow> fs
         | Some sz \<Rightarrow>
             (let fs1 = fs\<lparr>files := (files fs)(outputPath \<mapsto> sz)\<rparr>
              in if filepath \<noteq> outputPath
                 then (case unlinkSync fs1 filepath of Some fs2 \<Rightarrow> fs2 | None \<Rightarrow> fs1)
                 else fs1))"

text \<open>
  The \<open>try\<close> block: what it returns or throws, the file system it leaves and the
  \<open>onProgress\<close> calls it has made. \<open>createWriteStream(filepath)\<close> creates the file; the
  chunks received are in it when the stream ends or fails.
\<close>

definition tryDownload ::
  "string \<Rightarrow> string \<Rightarrow> download_options \<Rightarrow> axios_outcome \<Rightarrow> real option \<Rightarrow> filesystem
    \<Rightarrow> (thrown + download_result) \<times> filesystem \<times> progress_call list" where
  "tryDownload filepath sourceFormat options axios sharp fs =
     (case axios of
        AxiosThrows error \<Rightarrow> (Inl error, fs, [])
      | AxiosResponse response \<Rightarrow>
          (if \<not> (case content_type response of
                    Some ct \<Rightarrow> string_includes ct ''image'' | None \<Rightarrow> False)
           then (Inl (Thrown ''DownloadError'' ''Invalid content type''), fs, [])
           else (case onData (content_length response) 0 (chunks response) of
                   (downloaded, calls) \<Rightarrow>
                     (let fs1 = fs\<lparr>files := (files fs)(filepath \<mapsto> downloaded)\<rparr>
                      in case stream_error response of
                           Some error \<Rightarrow> (Inl error, fs1, calls)
                         | None \<Rightarrow>
                             (let fs2 = (case imageFormat options of
                                           Some format \<Rightarrow>
                                             (if format \<noteq> [] \<and> format \<noteq> sourceFormat
                                              then convertImage sharp filepath format fs1
                                              else fs1)
                                         | None \<Rightarrow> fs1)
                              in (Inr \<lparr> result_success = True, result_downloadedBytes = downloaded \<rparr>,
                                  fs2, calls))))))"

text \<open>The clean-up of the \<open>catch\<close> block; an error of \<open>unlinkSync\<close> is ignored.\<close>

definition cleanupPartial :: "string \<Rightarrow> filesystem \<Rightarrow> filesystem" where
  "cleanupPartial filepath fs =
     (if existsSync fs filepath
      then (case unlinkSync fs filepath of Some fs1 \<Rightarrow> fs1 | None \<Rightarrow> fs)
      else fs)"

text \<open>
  The early return for a file that is already there: \<open>existsSync(filepath) &&
  options.skipExisting\<close> and \<open>stats.size > 1000\<close>.
\<close>

definition skipsExisting :: "string \<Rightarrow> download_options \<Rightarrow> filesystem \<Rightarrow> bool" where
  "skipsExisting filepath options fs =
     (case files fs filepath of
        Some sz \<Rightarrow> skipExisting options \<and> sz > 1000
      | None \<Rightarrow> False)"

definition downloadSingleImage ::
  "string \<Rightarrow> string \<Rightarrow> string \<Rightarrow> download_options \<Rightarrow> axios_outcome \<Rightarrow> real option \<Rightarrow> filesystem
    \<Rightarrow> (download_error + download_result) \<times> filesystem \<times> progress_call list" where
  "downloadSingleImage url filepath sourceFormat options axios sharp fs =
     (if skipsExisting filepath options fs
      then (case files fs filepath of
              Some sz \<Rightarrow> (Inr \<lparr> result_success = True, result_downloadedBytes = sz \<rparr>, fs, [])
            | None \<Rightarrow> (Inr \<lparr> result_success = True, result_downloadedBytes = 0 \<rparr>, fs, []))
      else (case tryDownload filepath sourceFormat options axios sharp fs of
              (Inr result, fs1, calls) \<Rightarrow> (Inr result, fs1, calls)
            | (Inl error, fs1, calls) \<Rightarrow>
                (Inl (DownloadError (''Download failed: '' @ toString error) ''DOWNLOAD_FAILED''
                        (Some url) (Some filepath)),
                 cleanupPartial filepath fs1, calls)))"

section \<open>Invariant of the rate limiter, and the inputs of the examples\<close>

text \<open>
  What the rate limiter maintains for a key when its callers run one after the other: the
  dispatches to the key are spaced, and the map holds the time of the last one.
\<close>

definition rateLimited :: "real \<Rightarrow> string \<Rightarrow> queue \<Rightarrow> bool" where
  "rateLimited minDelay key q =
     (spaced minDelay (dispatchTimes key q) \<and>
      (dispatchTimes key q \<noteq> [] \<longrightarrow>
         lastRequestTime q key = Some (last (dispatchTimes key q))))"

text \<open>
  A valid configuration (\<open>backoffMultiplier > 1\<close>, \<open>maxDelay > 0\<close>) with a multiplier
  below 1.1.
\<close>

definition slowConfig :: config where
  "slowConfig = defaultConfig\<lparr>backoffMultiplier := 105 / 100\<rparr>"

text \<open>
  A task that is rejected at every attempt, and three tasks with it in the middle.
  A queue that has just served one request: the queue after one \<open>add\<close> on a new queue.
\<close>

definition failingTask :: "nat task" where
  "failingTask = (\<lambda>n. Inl (Error ''boom''))"

definition threeTasks :: "nat task list" where
  "threeTasks = [\<lambda>n. Inr 7, failingTask, \<lambda>n. Inr 9]"


text \<open>A tracker with one active record, \<open>ch1\<close>, of ten pages.\<close>

definition exampleTracker :: tracker where
  "exampleTracker = start ''ch1'' 10 ''Series'' ''Episode 1'' 1000 emptyTracker"

text \<open>
  Two responses, a web page and an image of ten bytes; a call without options; an empty
  directory, and one with a stale file of 500 bytes at the sink path.
\<close>

definition htmlResponse :: response where
  "htmlResponse = \<lparr> content_type = Some ''text/html'', content_length = 2048,
     chunks = [1024, 1024], stream_error = None \<rparr>"

definition tinyImageResponse :: response where
  "tinyImageResponse = \<lparr> content_type = Some ''image/jpeg'', content_length = 10,
     chunks = [10], stream_error = None \<rparr>"

definition noDownloadOptions :: download_options where
  "noDownloadOptions = \<lparr> skipExisting = False, imageFormat = None \<rparr>"

definition emptyDisk :: filesystem where
  "emptyDisk = \<lparr> files = Map.empty, undeletable = [] \<rparr>"

definition staleDisk :: filesystem where
  "staleDisk = \<lparr> files = [''out/page-001.jpg'' \<mapsto> 500], undeletable = [] \<rparr>"

section \<open>Backoff\<close>

text \<open>
  C3. The claim: for every attempt \<open>n \<ge> 1\<close> the delay is
  \<open>min(baseDelay * multiplier^(n-1), maxDelay)\<close> plus jitter, so that the first attempt
  waits \<open>baseDelay\<close> before jitter. The code raises the multiplier to the power \<open>n\<close>:
  with the default configuration and no jitter the first attempt waits 2000 ms, where the
  claim (and \<open>ErrorHandler.withRetry\<close>) gives 1000 ms.
\<close>

theorem calculateBackoff_first_attempt_off_by_one:
  "calculateBackoff defaultConfig 0 1 = 2000 \<and>
   backoffDelay defaultConfig 1 \<noteq> baseDelay \<and>
   withRetry_delay (backoffMultiplier defaultConfig) (maxDelay defaultConfig) 1 = baseDelay"
  by (simp add: calculateBackoff_def backoffDelay_def withRetry_delay_def baseDelay_def
      defaultConfig_def)

text \<open>
  C7. The claim: for every valid configuration the delay is non-decreasing in the attempt
  number until it reaches \<open>maxDelay\<close>, for any admissible jitter, and never exceeds
  \<open>maxDelay * 1.1\<close>. The jitter of an attempt is drawn independently and can be a tenth
  of the delay: with a multiplier of 1.05 the first attempt (jitter 0.9) waits 1144.5 ms
  and the second (jitter 0) 1102.5 ms, both far below \<open>maxDelay\<close>.
\<close>

theorem calculateBackoff_jitter_not_monotone_counterexample:
  "backoffMultiplier slowConfig > 1 \<and> maxDelay slowConfig > 0 \<and>
   calculateBackoff slowConfig (9 / 10) 1 = 11445 / 10 \<and>
   calculateBackoff slowConfig 0 2 = 11025 / 10 \<and>
   calculateBackoff slowConfig 0 2 < calculateBackoff slowConfig (9 / 10) 1 \<and>
   calculateBackoff slowConfig (9 / 10) 1 < maxDelay slowConfig"
  by (simp add: slowConfig_def defaultConfig_def calculateBackoff_def
      backoffDelay_def baseDelay_def Let_def power2_eq_square)

lemma backoffDelay_mono:
  assumes "backoffMultiplier cfg \<ge> 1" and "i \<le> j"
  shows "backoffDelay cfg i \<le> backoffDelay cfg j"
proof -
  have "backoffMultiplier cfg ^ i \<le> backoffMultiplier cfg ^ j"
    using assms by (rule power_increasing [OF _ _, rotated])
  then have "baseDelay * backoffMultiplier cfg ^ i \<le> baseDelay * backoffMultiplier cfg ^ j"
    by (simp add: baseDelay_def)
  then show ?thesis by (simp add: backoffDelay_def min_def)
qed

lemma backoffDelay_pos:
  assumes "backoffMultiplier cfg > 0" and "maxDelay cfg > 0"
  shows "0 < backoffDelay cfg n"
  using assms by (simp add: backoffDelay_def baseDelay_def)

lemma calculateBackoff_bounds:
  fixes d r :: real
  assumes "0 \<le> d" and "0 \<le> r" and "r < 1"
  shows "d \<le> d + r * (1 / 10) * d" and "d + r * (1 / 10) * d \<le> d * (11 / 10)"
proof -
  from assms show "d \<le> d + r * (1 / 10) * d" by simp
  have "r * d \<le> 1 * d" using assms by (intro mult_right_mono) simp_all
  then show "d + r * (1 / 10) * d \<le> d * (11 / 10)" by simp
qed

lemma backoffDelay_step:
  assumes m: "backoffMultiplier cfg \<ge> 11 / 10" and ij: "i < j"
    and cap: "baseDelay * backoffMultiplier cfg ^ j \<le> maxDelay cfg"
  shows "backoffDelay cfg i * (11 / 10) \<le> backoffDelay cfg j"
proof -
  let ?m = "backoffMultiplier cfg"
  from m have m1: "1 \<le> ?m" by simp
  have "?m ^ Suc i \<le> ?m ^ j" using m1 ij by (intro power_increasing) simp_all
  moreover have "(11 / 10) * ?m ^ i \<le> ?m * ?m ^ i"
    using m m1 by (intro mult_right_mono) simp_all
  ultimately have "(11 / 10) * ?m ^ i \<le> ?m ^ j" by simp
  then have a: "baseDelay * ?m ^ i * (11 / 10) \<le> baseDelay * ?m ^ j"
    by (simp add: baseDelay_def)
  have "backoffDelay cfg i \<le> baseDelay * ?m ^ i" by (simp add: backoffDelay_def)
  then have "backoffDelay cfg i * (11 / 10) \<le> baseDelay * ?m ^ i * (11 / 10)" by simp
  also note a
  also have "baseDelay * ?m ^ j = backoffDelay cfg j" using cap by (simp add: backoffDelay_def)
  finally show ?thesis .
qed

text \<open>
  C7, as the code has it, for a valid configuration and admissible jitter values: the
  delay before jitter is non-decreasing in the attempt number; when the multiplier is at
  least 1.1, the delay of an attempt that has not passed \<open>maxDelay\<close> is at most the
  delay of every later attempt; and the delay of every attempt is at most
  \<open>maxDelay * 1.1\<close>.
\<close>

theorem calculateBackoff_monotone_and_bounded:
  assumes "backoffMultiplier cfg > 1" and "maxDelay cfg > 0"
    and "0 \<le> r" and "r < 1" and "0 \<le> r'" and "r' < 1"
  shows "(i \<le> j \<longrightarrow> backoffDelay cfg i \<le> backoffDelay cfg j) \<and>
         (backoffMultiplier cfg \<ge> 11 / 10 \<and> i < j \<and> calculateBackoff cfg r i \<le> maxDelay cfg \<longrightarrow>
            calculateBackoff cfg r i \<le> calculateBackoff cfg r' j) \<and>
         calculateBackoff cfg r i \<le> maxDelay cfg * 1.1"
proof (intro conjI impI)
  assume "i \<le> j"
  with assms(1) show "backoffDelay cfg i \<le> backoffDelay cfg j"
    by (intro backoffDelay_mono) simp_all
next
  assume h: "backoffMultiplier cfg \<ge> 11 / 10 \<and> i < j \<and> calculateBackoff cfg r i \<le> maxDelay cfg"
  have pi: "0 \<le> backoffDelay cfg i" and pj: "0 \<le> backoffDelay cfg j"
    using backoffDelay_pos [of cfg] assms(1,2) by (simp_all add: less_imp_le)
  have lower: "backoffDelay cfg j \<le> calculateBackoff cfg r' j"
    using calculateBackoff_bounds(1) [OF pj assms(5,6)] by (simp add: calculateBackoff_def Let_def)
  show "calculateBackoff cfg r i \<le> calculateBackoff cfg r' j"
  proof (cases "baseDelay * backoffMultiplier cfg ^ j \<le> maxDelay cfg")
    case True
    have "calculateBackoff cfg r i \<le> backoffDelay cfg i * (11 / 10)"
      using calculateBackoff_bounds(2) [OF pi assms(3,4)] by (simp add: calculateBackoff_def Let_def)
    also have "\<dots> \<le> backoffDelay cfg j" using h True by (intro backoffDelay_step) simp_all
    also note lower
    finally show ?thesis .
  next
    case False
    then have "backoffDelay cfg j = maxDelay cfg" by (simp add: backoffDelay_def)
    with h lower show ?thesis by simp
  qed
next
  have pi: "0 \<le> backoffDelay cfg i"
    using backoffDelay_pos [of cfg] assms(1,2) by (simp_all add: less_imp_le)
  have "calculateBackoff cfg r i \<le> backoffDelay cfg i * (11 / 10)"
    using calculateBackoff_bounds(2) [OF pi assms(3,4)] by (simp add: calculateBackoff_def Let_def)
  also have "\<dots> \<le> maxDelay cfg * (11 / 10)" by (simp add: backoffDelay_def)
  finally show "calculateBackoff cfg r i \<le> maxDelay cfg * 1.1" by simp
qed

theorem calculateBackoff_monotone_and_bounded_witness:
  "backoffMultiplier defaultConfig > 1 \<and> maxDelay defaultConfig > 0 \<and>
   backoffMultiplier defaultConfig \<ge> 11 / 10 \<and>
   calculateBackoff defaultConfig (9 / 10) 3 = 8720 \<and>
   calculateBackoff defaultConfig (9 / 10) 3 \<le> maxDelay defaultConfig \<and>
   backoffDelay defaultConfig 3 \<le> backoffDelay defaultConfig 4 \<and>
   calculateBackoff defaultConfig (9 / 10) 3 \<le> calculateBackoff defaultConfig 0 4 \<and>
   calculateBackoff defaultConfig (9 / 10) 3 \<le> maxDelay defaultConfig * 1.1"
proof -
  have h: "backoffMultiplier defaultConfig > 1" "maxDelay defaultConfig > 0"
      "backoffMultiplier defaultConfig \<ge> 11 / 10"
      "calculateBackoff defaultConfig (9 / 10) 3 = 8720"
      "calculateBackoff defaultConfig (9 / 10) 3 \<le> maxDelay defaultConfig"
    by (simp_all add: defaultConfig_def baseDelay_def calculateBackoff_def backoffDelay_def Let_def)
  from calculateBackoff_monotone_and_bounded [OF h(1,2), of "9 / 10" 0 3 4] h
  show ?thesis by simp
qed

section \<open>How a call of add settles\<close>

text \<open>
  How an attempt settles is decided by the abort flag and the task; the queue's state
  only decides how long the caller waits. So the result of \<open>add\<close> does not depend on the
  state of the queue it is called on.
\<close>

lemma fst_attemptTask:
  "fst (attemptTask cfg domain retries aborted taskFn attempt q) =
     (if aborted then Inl (Error ''Request aborted'') else taskFn attempt)"
  by (simp add: attemptTask_def Let_def split: sum.splits js_error.splits option.splits)

lemma fst_pRetry_attemptTask:
  "fst (pRetry (attemptTask cfg domain retries aborted taskFn) k n errs q) =
   fst (pRetry (attemptTask cfg domain retries aborted taskFn) k n errs q')"
proof (induction k arbitrary: n errs q q')
  case 0
  obtain r q1 where p: "attemptTask cfg domain retries aborted taskFn n q = (r, q1)"
    by (cases "attemptTask cfg domain retries aborted taskFn n q")
  obtain r' q1' where p': "attemptTask cfg domain retries aborted taskFn n q' = (r', q1')"
    by (cases "attemptTask cfg domain retries aborted taskFn n q'")
  from p p' fst_attemptTask [of cfg domain retries aborted taskFn n q]
    fst_attemptTask [of cfg domain retries aborted taskFn n q']
  have "r' = r" by simp
  with p p' show ?case by (simp split: sum.splits option.splits)
next
  case (Suc k)
  obtain r q1 where p: "attemptTask cfg domain retries aborted taskFn n q = (r, q1)"
    by (cases "attemptTask cfg domain retries aborted taskFn n q")
  obtain r' q1' where p': "attemptTask cfg domain retries aborted taskFn n q' = (r', q1')"
    by (cases "attemptTask cfg domain retries aborted taskFn n q'")
  from p p' fst_attemptTask [of cfg domain retries aborted taskFn n q]
    fst_attemptTask [of cfg domain retries aborted taskFn n q']
  have rr: "r' = r" by simp
  show ?case
  proof (cases r)
    case (Inr v)
    with p p' rr show ?thesis by simp
  next
    case (Inl e)
    with p p' rr show ?thesis
      using Suc.IH [of "Suc n" "errs @ [e]" "sleep (1000 * 2 ^ (n - 1)) q1"
          "sleep (1000 * 2 ^ (n - 1)) q1'"]
      by simp
  qed
qed

lemma fst_add:
  "fst (add cfg taskFn options q) =
   fst (pRetry (attemptTask cfg (add_domain options) (add_retries cfg options)
          (opt_aborted options) taskFn) (add_retries cfg options) 1 [] (snd (Math_random q)))"
  by (simp add: add_def Let_def split: prod.splits sum.splits)

lemma fst_add_any_queue:
  "fst (add cfg taskFn options q) = fst (add cfg taskFn options q')"
  unfolding fst_add by (rule fst_pRetry_attemptTask)

lemma pRetry_fulfilled_at_once:
  assumes "input n q = (Inr v, q1)"
  shows "pRetry input k n errs q = (Inr v, q1)"
  using assms by (cases k) simp_all

lemma add_fulfilled_at_once:
  assumes "\<not> opt_aborted options" and "taskFn 1 = Inr v"
  shows "add cfg taskFn options q =
     (Inr v, enforceRateLimit cfg (add_domain options) (snd (Math_random q)))"
proof -
  have "attemptTask cfg (add_domain options) (add_retries cfg options) (opt_aborted options)
          taskFn 1 (snd (Math_random q))
        = (Inr v, enforceRateLimit cfg (add_domain options) (snd (Math_random q)))"
    using assms by (simp add: attemptTask_def Let_def)
  then have "pRetry (attemptTask cfg (add_domain options) (add_retries cfg options)
          (opt_aborted options) taskFn) (add_retries cfg options) 1 [] (snd (Math_random q))
        = (Inr v, enforceRateLimit cfg (add_domain options) (snd (Math_random q)))"
    by (rule pRetry_fulfilled_at_once)
  then show ?thesis
    by (simp add: add_def Let_def)
qed

lemma fst_add_first_attempt:
  assumes "\<not> opt_aborted options" and "taskFn 1 = Inr v"
  shows "fst (add cfg taskFn options q) = Inr v"
  using add_fulfilled_at_once [of options taskFn v cfg q] assms by simp

lemma isl_pRetry_always_rejected:
  assumes "\<And>n. isl (taskFn n)"
  shows "isl (fst (pRetry (attemptTask cfg domain retries aborted taskFn) k n errs q))"
proof (induction k arbitrary: n errs q)
  case 0
  obtain r q1 where p: "attemptTask cfg domain retries aborted taskFn n q = (r, q1)"
    by (cases "attemptTask cfg domain retries aborted taskFn n q")
  with fst_attemptTask [of cfg domain retries aborted taskFn n q] assms [of n]
  have "isl r" by (simp split: if_splits)
  with p show ?case by (auto simp: isl_def split: option.splits)
next
  case (Suc k)
  obtain r q1 where p: "attemptTask cfg domain retries aborted taskFn n q = (r, q1)"
    by (cases "attemptTask cfg domain retries aborted taskFn n q")
  with fst_attemptTask [of cfg domain retries aborted taskFn n q] assms [of n]
  have "isl r" by (simp split: if_splits)
  with p Suc.IH show ?case by (auto simp: isl_def)
qed

lemma isl_add_always_rejected:
  assumes "\<And>n. isl (taskFn n)"
  shows "isl (fst (add cfg taskFn options q))"
  unfolding fst_add by (rule isl_pRetry_always_rejected [OF assms])

text \<open>
  Nothing before the final rejection touches the listeners or the uncaught errors; the
  rejection leaves its error uncaught exactly when the queue has no listener.
\<close>

lemma listeners_enforceRateLimit:
  "errorListeners (enforceRateLimit cfg domain q) = errorListeners q \<and>
   uncaught (enforceRateLimit cfg domain q) = uncaught q"
  by (simp add: enforceRateLimit_def enforceRateLimit_commit_def sleep_def Let_def
      split: option.splits)

lemma listeners_backoffSleep:
  "errorListeners (backoffSleep cfg n q) = errorListeners q \<and>
   uncaught (backoffSleep cfg n q) = uncaught q"
  by (simp add: backoffSleep_def Math_random_def sleep_def split: prod.splits list.splits)

lemma listeners_attemptTask:
  "errorListeners (snd (attemptTask cfg domain retries aborted taskFn n q)) = errorListeners q \<and>
   uncaught (snd (attemptTask cfg domain retries aborted taskFn n q)) = uncaught q"
  by (simp add: attemptTask_def Let_def listeners_enforceRateLimit listeners_backoffSleep sleep_def
      split: sum.splits js_error.splits option.splits)

lemma listeners_pRetry:
  "errorListeners (snd (pRetry (attemptTask cfg domain retries aborted taskFn) k n errs q))
     = errorListeners q \<and>
   uncaught (snd (pRetry (attemptTask cfg domain retries aborted taskFn) k n errs q))
     = uncaught q"
proof (induction k arbitrary: n errs q)
  case 0
  obtain r q1 where p: "attemptTask cfg domain retries aborted taskFn n q = (r, q1)"
    by (cases "attemptTask cfg domain retries aborted taskFn n q")
  with listeners_attemptTask [of cfg domain retries aborted taskFn n q]
  show ?case by (auto split: sum.splits option.splits)
next
  case (Suc k)
  obtain r q1 where p: "attemptTask cfg domain retries aborted taskFn n q = (r, q1)"
    by (cases "attemptTask cfg domain retries aborted taskFn n q")
  with listeners_attemptTask [of cfg domain retries aborted taskFn n q]
  have q1: "errorListeners q1 = errorListeners q" "uncaught q1 = uncaught q" by simp_all
  show ?case
  proof (cases r)
    case (Inr v)
    with p q1 show ?thesis by simp
  next
    case (Inl e)
    with p q1 Suc.IH [of "Suc n" "errs @ [e]" "sleep (1000 * 2 ^ (n - 1)) q1"]
    show ?thesis by (simp add: sleep_def)
  qed
qed

lemma uncaught_add:
  "uncaught (snd (add cfg taskFn options q)) =
     uncaught q @ (case fst (add cfg taskFn options q) of
                     Inl e \<Rightarrow> (if errorListeners q = 0 then [e] else [])
                   | Inr v \<Rightarrow> [])"
proof -
  let ?p = "pRetry (attemptTask cfg (add_domain options) (add_retries cfg options)
          (opt_aborted options) taskFn) (add_retries cfg options) 1 [] (snd (Math_random q))"
  have m: "errorListeners (snd (Math_random q)) = errorListeners q"
      "uncaught (snd (Math_random q)) = uncaught q"
    by (simp_all add: Math_random_def split: list.splits)
  obtain r q2 where p: "?p = (r, q2)" by (cases ?p)
  with listeners_pRetry [of cfg "add_domain options" "add_retries cfg options"
      "opt_aborted options" taskFn "add_retries cfg options" 1 "[]" "snd (Math_random q)"] m
  have "errorListeners q2 = errorListeners q" "uncaught q2 = uncaught q" by simp_all
  with p show ?thesis
    by (cases r) (simp_all add: add_def Let_def emitError_def)
qed

text \<open>
  What the promise is rejected with: after the retries, the error whose message was seen
  most often (two attempts with \<open>a\<close>, the last with \<open>b\<close>: the rejection is \<open>a\<close>); a
  \<open>TypeError\<close> that is no network error, at once.
\<close>

lemma mainError_most_frequent:
  "mainError [Error ''a'', Error ''a'', Error ''b''] = Some (Error ''a'') \<and>
   mainError [Error ''a'', Error ''b''] = Some (Error ''b'')"
  by (simp add: mainError_def Let_def)

lemma add_rejects_with_mainError:
  "fst (add (defaultConfig\<lparr>maxRetries := 2\<rparr>)
         (\<lambda>n. if n = 3 then Inl (Error ''b'') else Inl (Error ''a'') :: js_error + nat)
         noOptions (newQueue 1000000 [])) = Inl (Error ''a'')"
  by (simp add: fst_add add_retries_def noOptions_def defaultConfig_def numeral_2_eq_2
      mainError_def Let_def split_beta fst_attemptTask split: sum.splits prod.splits)

lemma add_TypeError_not_retried:
  assumes "\<not> opt_aborted options" and "taskFn 1 = Inl (TypeError msg False)"
  shows "fst (add cfg taskFn options q) = Inl (TypeError msg False)"
proof -
  let ?input = "attemptTask cfg (add_domain options) (add_retries cfg options)
      (opt_aborted options) taskFn"
  obtain r q1 where p: "?input 1 (snd (Math_random q)) = (r, q1)"
    by (cases "?input 1 (snd (Math_random q))")
  with fst_attemptTask [of cfg "add_domain options" "add_retries cfg options"
      "opt_aborted options" taskFn 1 "snd (Math_random q)"] assms
  have "r = Inl (TypeError msg False)" by simp
  with p show ?thesis
    unfolding fst_add by (cases "add_retries cfg options") simp_all
qed

section \<open>Batches\<close>

lemma fulfilledValues_append:
  "fulfilledValues (xs @ ys) = fulfilledValues xs @ fulfilledValues ys"
  by (simp add: fulfilledValues_def map_filter_def)

lemma settled_partition:
  "length (fulfilledValues rs) + length (rejectedReasons rs) = length rs"
  by (induction rs) (auto simp: fulfilledValues_def rejectedReasons_def map_filter_def split: sum.splits)

lemma rejectedReasons_empty:
  "(rejectedReasons rs = []) = (\<forall>r \<in> set rs. \<not> isl r)"
  by (induction rs) (auto simp: rejectedReasons_def map_filter_def isl_def split: sum.splits)

lemma fst_allSettled:
  "map fst (allSettled cfg batch q) = map (\<lambda>task. fst (add cfg task noOptions q0)) batch"
  by (auto simp: allSettled_def intro: fst_add_any_queue)

text \<open>
  A task of the batch leaves no error uncaught when the queue has a listener, or when
  the task's promise is fulfilled.
\<close>

lemma no_uncaught_in_batch:
  assumes "uncaught q = []"
    and "0 < errorListeners q \<or> (\<forall>task \<in> set batch. \<not> isl (fst (add cfg task noOptions q)))"
  shows "\<not> list_ex (\<lambda>s. uncaught (snd s) \<noteq> []) (allSettled cfg batch q)"
proof -
  have "uncaught (snd (add cfg task noOptions q)) = []" if "task \<in> set batch" for task
    using assms that uncaught_add [of cfg task noOptions q]
    by (auto split: sum.splits simp: isl_def)
  then show ?thesis by (simp add: allSettled_def list_ex_iff)
qed

lemma uncaught_in_batch:
  assumes "errorListeners q = 0" and "task \<in> set batch"
    and "isl (fst (add cfg task noOptions q))"
  shows "list_ex (\<lambda>s. uncaught (snd s) \<noteq> []) (allSettled cfg batch q)"
proof -
  from assms(1,3) uncaught_add [of cfg task noOptions q]
  have "uncaught (snd (add cfg task noOptions q)) \<noteq> []"
    by (auto split: sum.splits simp: isl_def)
  with assms(2) show ?thesis by (auto simp: allSettled_def list_ex_iff)
qed

lemma addBatch_loop_results:
  assumes "0 < b" and "uncaught q = []"
    and ok: "0 < errorListeners q \<or> (\<forall>task \<in> set tasks. \<not> isl (fst (add cfg task noOptions q)))"
  shows "\<exists>calls pauses. addBatch_loop cfg q tasks b d i (results, cs, ps) =
     Some (Returns (results @ fulfilledValues (map (\<lambda>task. fst (add cfg task noOptions q0)) (drop i tasks)),
           calls, pauses))"
proof (induction "length tasks - i" arbitrary: i results cs ps rule: less_induct)
  case less
  show ?case
  proof (cases "i < length tasks")
    case False
    then show ?thesis
      by (subst addBatch_loop.simps) (simp add: fulfilledValues_def map_filter_def)
  next
    case True
    let ?out = "\<lambda>task. fst (add cfg task noOptions q0)"
    let ?batch = "take b (drop i tasks)"
    have sub: "set ?batch \<subseteq> set tasks"
      by (meson set_take_subset set_drop_subset subset_trans)
    with ok have "0 < errorListeners q \<or> (\<forall>task \<in> set ?batch. \<not> isl (fst (add cfg task noOptions q)))"
      by blast
    from no_uncaught_in_batch [OF assms(2) this]
    have nx: "\<not> list_ex (\<lambda>s. uncaught (snd s) \<noteq> []) (allSettled cfg ?batch q)" .
    have rs: "map fst (allSettled cfg ?batch q) = map ?out ?batch"
      by (rule fst_allSettled)
    obtain cs' ps' where body: "addBatch_body cfg q tasks b d i (results, cs, ps) =
        Returns (results @ fulfilledValues (map ?out ?batch), cs', ps')"
      using nx rs by (simp add: addBatch_body_def Let_def)
    from True assms(1) have "length tasks - (i + b) < length tasks - i" by arith
    from less [OF this, of "results @ fulfilledValues (map ?out ?batch)" cs' ps']
    obtain calls pauses where ih:
      "addBatch_loop cfg q tasks b d (i + b) (results @ fulfilledValues (map ?out ?batch), cs', ps')
        = Some (Returns ((results @ fulfilledValues (map ?out ?batch)) @
                   fulfilledValues (map ?out (drop (i + b) tasks)), calls, pauses))"
      by blast
    have "?batch @ drop (i + b) tasks = drop i tasks"
      by (metis add.commute append_take_drop_id drop_drop)
    then have "map ?out ?batch @ map ?out (drop (i + b) tasks) = map ?out (drop i tasks)"
      by (metis map_append)
    then have "fulfilledValues (map ?out ?batch) @ fulfilledValues (map ?out (drop (i + b) tasks))
        = fulfilledValues (map ?out (drop i tasks))"
      by (simp add: fulfilledValues_append [symmetric])
    with ih body True show ?thesis
      by (subst addBatch_loop.simps) simp
  qed
qed

text \<open>
  Without a listener, a task of the first batch whose promise is rejected ends the
  process.
\<close>

lemma addBatch_process_exits:
  assumes "errorListeners q = 0"
    and "task \<in> set (take (case optBatchSize of Some b \<Rightarrow> b | None \<Rightarrow> batchSize cfg) tasks)"
    and "isl (fst (add cfg task noOptions q))"
  shows "addBatch cfg tasks optBatchSize optDelay q = Some ProcessExits"
proof -
  let ?b = "case optBatchSize of Some b \<Rightarrow> b | None \<Rightarrow> batchSize cfg"
  from assms(2) have ne: "0 < length tasks" by (cases tasks) auto
  from uncaught_in_batch [OF assms(1) _ assms(3), of "take ?b (drop 0 tasks)"] assms(2)
  have "list_ex (\<lambda>s. uncaught (snd s) \<noteq> []) (allSettled cfg (take ?b (drop 0 tasks)) q)"
    by simp
  then have "addBatch_body cfg q tasks ?b d 0 ([], [], []) = ProcessExits" for d
    by (simp add: addBatch_body_def Let_def)
  with ne show ?thesis
    by (simp add: addBatch_def Let_def addBatch_loop.simps [of cfg q tasks ?b _ 0])
qed

text \<open>
  A batch size of zero with a task to run: the index never advances and the call never
  returns.
\<close>

lemma addBatch_loop_zero_aux:
  assumes "addBatch_loop cfg q tasks b d i st = Some y"
  shows "b = 0 \<and> i < length tasks \<longrightarrow> y = ProcessExits"
proof (rule addBatch_loop.raw_induct
    [where P = "\<lambda>cfg q tasks b d i st y. b = 0 \<and> i < length tasks \<longrightarrow> y = ProcessExits",
     OF _ assms])
  fix f :: "config \<Rightarrow> queue \<Rightarrow> 'a task list \<Rightarrow> nat \<Rightarrow> real \<Rightarrow> nat \<Rightarrow> 'a batch_state
      \<Rightarrow> 'a batch_state completion option"
    and cfg q tasks b d i st y
  assume ih: "\<And>cfg q tasks b d i st y. f cfg q tasks b d i st = Some y
      \<Longrightarrow> b = 0 \<and> i < length tasks \<longrightarrow> y = ProcessExits"
    and body: "(if i < length tasks
        then (case addBatch_body cfg q tasks b d i st of
                ProcessExits \<Rightarrow> Some ProcessExits
              | Returns st1 \<Rightarrow> f cfg q tasks b d (i + b) st1)
        else Some (Returns st)) = Some y"
  show "b = 0 \<and> i < length tasks \<longrightarrow> y = ProcessExits"
  proof (intro impI)
    assume h: "b = 0 \<and> i < length tasks"
    show "y = ProcessExits"
    proof (cases "addBatch_body cfg q tasks b d i st")
      case ProcessExits
      with body h show ?thesis by simp
    next
      case (Returns st1)
      with body h have "f cfg q tasks 0 d i st1 = Some y" by simp
      from ih [OF this] h show ?thesis by simp
    qed
  qed
qed

lemma addBatch_loop_zero_never_returns:
  assumes "i < length tasks"
  shows "addBatch_loop cfg q tasks 0 d i st \<noteq> Some (Returns y)"
  using addBatch_loop_zero_aux [of cfg q tasks 0 d i st "Returns y"] assms by auto

text \<open>
  C1. The claim: \<open>addBatch\<close> returns a result for every input operation, succeeded and
  failed together accounting for all \<open>N\<close> inputs, and a failure never removes the
  outcomes of the siblings. The method returns \<open>results\<close> only, the values of the
  fulfilled tasks; the rejected ones are counted and logged per batch and then dropped:
  on a queue with an \<open>'error'\<close> listener, a single task that always rejects gives the
  empty list for one input. On the queue as the repository sets it up, without such a
  listener, the rejection of the first of two tasks in batches of one ends the process
  before the second batch starts, and nothing is returned.
\<close>

theorem addBatch_drops_failed_counterexample:
  "addBatch defaultConfig [failingTask] None None (onError (newQueue 1000000 []))
     = Some (Returns ([], [([], 0)], [])) \<and>
   length [failingTask] = 1 \<and>
   addBatch defaultConfig [failingTask, \<lambda>n. Inr 9] (Some 1) None (newQueue 1000000 [])
     = Some ProcessExits"
proof -
  let ?q = "onError (newQueue 1000000 [])"
  have r: "isl (fst (add defaultConfig failingTask noOptions q))" for q
    by (rule isl_add_always_rejected) (simp add: failingTask_def)
  have u: "uncaught (snd (add defaultConfig failingTask noOptions ?q)) = []"
    using uncaught_add [of defaultConfig failingTask noOptions ?q]
    by (simp add: onError_def newQueue_def split: sum.splits)
  from r [of ?q] obtain e where e: "fst (add defaultConfig failingTask noOptions ?q) = Inl e"
    by (auto simp: isl_def)
  have body: "addBatch_body defaultConfig ?q [failingTask] 5 1500 0 ([], [], [])
      = Returns ([], [([], 0)], [])"
    using u e
    by (simp add: addBatch_body_def allSettled_def Let_def fulfilledValues_def map_filter_def)
  have 1: "addBatch defaultConfig [failingTask] None None ?q = Some (Returns ([], [([], 0)], []))"
    by (simp add: addBatch_def Let_def defaultConfig_def
        addBatch_loop.simps [of _ _ "[failingTask]" 5 1500 0]
        addBatch_loop.simps [of _ _ "[failingTask]" 5 1500 5]
        body [unfolded defaultConfig_def])
  have 2: "addBatch defaultConfig [failingTask, \<lambda>n. Inr 9] (Some 1) None (newQueue 1000000 [])
      = Some ProcessExits"
    by (rule addBatch_process_exits [where task = failingTask])
       (simp_all add: newQueue_def r)
  from 1 2 show ?thesis by simp
qed

text \<open>
  C1, as the code has it by design: for a positive batch size, on a live queue that has
  an \<open>'error'\<close> listener or whose tasks are all fulfilled, the loop ends and the list
  returned holds exactly the values of the tasks that fulfilled, in input order,
  whatever their siblings did; the tasks not in it are the rejected ones, so that the
  two counts add up to the number of tasks.
\<close>

theorem addBatch_returns_fulfilled_values:
  assumes "0 < (case optBatchSize of Some b \<Rightarrow> b | None \<Rightarrow> batchSize cfg)"
    and "uncaught q = []"
    and "0 < errorListeners q \<or>
         rejectedReasons (map (\<lambda>task. fst (add cfg task noOptions q')) tasks) = []"
  shows "\<exists>calls pauses.
           addBatch cfg tasks optBatchSize optDelay q =
             Some (Returns (fulfilledValues (map (\<lambda>task. fst (add cfg task noOptions q')) tasks),
                     calls, pauses)) \<and>
           length (fulfilledValues (map (\<lambda>task. fst (add cfg task noOptions q')) tasks)) +
           length (rejectedReasons (map (\<lambda>task. fst (add cfg task noOptions q')) tasks)) =
             length tasks"
proof -
  have "fst (add cfg task noOptions q) = fst (add cfg task noOptions q')"
    if "task \<in> set tasks" for task
    by (rule fst_add_any_queue)
  with assms(3)
  have "0 < errorListeners q \<or> (\<forall>task \<in> set tasks. \<not> isl (fst (add cfg task noOptions q)))"
    by (auto simp: rejectedReasons_empty)
  from addBatch_loop_results [OF assms(1,2) this, of _ 0 "[]" "[]" "[]" q']
  show ?thesis
    by (simp add: addBatch_def Let_def settled_partition)
qed

theorem addBatch_returns_fulfilled_values_witness:
  "0 < (case None of Some b \<Rightarrow> b | None \<Rightarrow> batchSize defaultConfig) \<and>
   uncaught (onError (newQueue 1000000 [])) = [] \<and>
   0 < errorListeners (onError (newQueue 1000000 [])) \<and>
   (\<exists>calls pauses.
      addBatch defaultConfig threeTasks None None (onError (newQueue 1000000 []))
        = Some (Returns ([7, 9], calls, pauses)))"
proof -
  let ?q = "onError (newQueue 1000000 [])"
  have b: "0 < (case None of Some b \<Rightarrow> b | None \<Rightarrow> batchSize defaultConfig)"
    by (simp add: defaultConfig_def)
  have u: "uncaught ?q = []" and l: "0 < errorListeners ?q"
    by (simp_all add: onError_def newQueue_def)
  have 1: "fst (add defaultConfig (\<lambda>n. Inr (7::nat)) noOptions ?q) = Inr 7"
    by (rule fst_add_first_attempt) (simp_all add: noOptions_def)
  have "isl (fst (add defaultConfig failingTask noOptions ?q))"
    by (rule isl_add_always_rejected) (simp add: failingTask_def)
  then obtain e where 2: "fst (add defaultConfig failingTask noOptions ?q) = Inl e"
    by (auto simp: isl_def)
  have 3: "fst (add defaultConfig (\<lambda>n. Inr (9::nat)) noOptions ?q) = Inr 9"
    by (rule fst_add_first_attempt) (simp_all add: noOptions_def)
  from addBatch_returns_fulfilled_values [where optBatchSize = None and cfg = defaultConfig
      and q = ?q and q' = ?q and tasks = threeTasks and optDelay = None, OF b u] l
  show ?thesis
    using b u by (simp add: threeTasks_def 1 2 3 fulfilledValues_def map_filter_def)
qed

section \<open>Rate limiting\<close>

text \<open>
  C2. The claim: two consecutive dispatches to one key are always at least the minimum
  delay apart, also with concurrent callers, because the check-and-set is serialized per
  key. In \<open>enforceRateLimit\<close> the read of the last dispatch time and the write of the new
  one are separated by \<open>await this.sleep(waitTime)\<close>. Three callers for one key that
  start together on a fresh queue (as the PQueue lets them with \<open>maxConcurrent = 3\<close>):
  the first dispatches at once, the other two both read its timestamp, both sleep 1500 ms
  and both dispatch at the same instant.
\<close>

theorem concurrent_callers_break_spacing:
  "dispatchTimes ''example.com''
     (concurrentCallers defaultConfig [''example.com'', ''example.com'', ''example.com'']
        (newQueue 1000000 [])) = [1000000, 1001500, 1001500] \<and>
   \<not> spaced (requestDelay defaultConfig)
     (dispatchTimes ''example.com''
       (concurrentCallers defaultConfig [''example.com'', ''example.com'', ''example.com'']
          (newQueue 1000000 [])))"
  by (simp add: concurrentCallers_def enforceRateLimit_check_def enforceRateLimit_commit_def
      newQueue_def defaultConfig_def dispatchTimes_def Let_def)

text \<open>
  Callers that run one after the other do keep the spacing: \<open>rateLimited\<close> holds on a new
  queue and is preserved by \<open>enforceRateLimit\<close>, by every sleep, and so by \<open>add\<close> when
  the caller runs alone.
\<close>

lemma spaced_snoc:
  "spaced d (ts @ [t]) = (spaced d ts \<and> (ts \<noteq> [] \<longrightarrow> t - last ts \<ge> d))"
  by (induction d ts rule: spaced.induct) auto

lemma rateLimited_newQueue: "rateLimited d key (newQueue now rs)"
  by (simp add: rateLimited_def dispatchTimes_def newQueue_def)

lemma rateLimited_sleep: "rateLimited d key (sleep ms q) = rateLimited d key q"
  by (simp add: rateLimited_def dispatchTimes_def sleep_def)

lemma rateLimited_Math_random: "rateLimited d key (snd (Math_random q)) = rateLimited d key q"
  by (simp add: rateLimited_def dispatchTimes_def Math_random_def split: list.splits)

lemma rateLimited_backoffSleep:
  "rateLimited d key (backoffSleep cfg n q) = rateLimited d key q"
  using rateLimited_Math_random [of d key q]
  by (cases "Math_random q") (simp add: backoffSleep_def rateLimited_sleep)

lemma rateLimited_emitError: "rateLimited d key (emitError e q) = rateLimited d key q"
  by (simp add: rateLimited_def dispatchTimes_def emitError_def)

lemma rateLimited_enforceRateLimit:
  assumes "rateLimited (requestDelay cfg) key q"
  shows "rateLimited (requestDelay cfg) key (enforceRateLimit cfg domain q)"
proof (cases "domain = key")
  case False
  with assms show ?thesis
    by (simp add: rateLimited_def dispatchTimes_def enforceRateLimit_def enforceRateLimit_commit_def
        sleep_def Let_def split: option.splits)
next
  case True
  show ?thesis
  proof (cases "dispatchTimes key q = []")
    case True
    with \<open>domain = key\<close> show ?thesis
      by (simp add: rateLimited_def dispatchTimes_def enforceRateLimit_def
          enforceRateLimit_commit_def sleep_def Let_def split: option.splits)
  next
    case False
    with assms have l: "lastRequestTime q key = Some (last (dispatchTimes key q))"
      and s: "spaced (requestDelay cfg) (dispatchTimes key q)"
      by (simp_all add: rateLimited_def)
    have d: "dispatchTimes key (enforceRateLimit cfg key q) =
        dispatchTimes key q @ [clock (enforceRateLimit cfg key q)]"
      by (simp add: dispatchTimes_def enforceRateLimit_def enforceRateLimit_commit_def
          sleep_def Let_def split: option.splits)
    have c: "clock (enforceRateLimit cfg key q) - last (dispatchTimes key q) \<ge> requestDelay cfg"
      using l by (auto simp: enforceRateLimit_def enforceRateLimit_check_def
          enforceRateLimit_commit_def sleep_def Let_def split: option.splits if_splits)
    have w: "lastRequestTime (enforceRateLimit cfg key q) key
        = Some (clock (enforceRateLimit cfg key q))"
      by (simp add: enforceRateLimit_def enforceRateLimit_commit_def Let_def split: option.splits)
    from d c w s \<open>domain = key\<close> show ?thesis
      by (simp add: rateLimited_def spaced_snoc)
  qed
qed

lemma rateLimited_attemptTask:
  assumes "rateLimited (requestDelay cfg) key q"
  shows "rateLimited (requestDelay cfg) key
     (snd (attemptTask cfg domain retries aborted taskFn attempt q))"
  using assms rateLimited_enforceRateLimit [OF assms, of domain]
  by (simp add: attemptTask_def Let_def rateLimited_sleep rateLimited_backoffSleep
      split: sum.splits js_error.splits option.splits)

lemma rateLimited_pRetry:
  assumes "rateLimited (requestDelay cfg) key q"
  shows "rateLimited (requestDelay cfg) key
     (snd (pRetry (attemptTask cfg domain retries aborted taskFn) k n errs q))"
  using assms
proof (induction k arbitrary: n errs q)
  case 0
  obtain r q1 where p: "attemptTask cfg domain retries aborted taskFn n q = (r, q1)"
    by (cases "attemptTask cfg domain retries aborted taskFn n q")
  with rateLimited_attemptTask [OF 0, of domain retries aborted taskFn n]
  have "rateLimited (requestDelay cfg) key q1" by simp
  with p show ?case by (simp split: sum.splits option.splits)
next
  case (Suc k)
  obtain r q1 where p: "attemptTask cfg domain retries aborted taskFn n q = (r, q1)"
    by (cases "attemptTask cfg domain retries aborted taskFn n q")
  with rateLimited_attemptTask [OF Suc.prems, of domain retries aborted taskFn n]
  have q1: "rateLimited (requestDelay cfg) key q1" by simp
  show ?case
  proof (cases r)
    case (Inr v)
    with p q1 show ?thesis by simp
  next
    case (Inl e)
    from q1 have "rateLimited (requestDelay cfg) key (sleep (1000 * 2 ^ (n - 1)) q1)"
      by (simp add: rateLimited_sleep)
    from Suc.IH [OF this] p Inl q1 show ?thesis by simp
  qed
qed

lemma rateLimited_add:
  assumes "rateLimited (requestDelay cfg) key q"
  shows "rateLimited (requestDelay cfg) key (snd (add cfg taskFn options q))"
proof -
  let ?p = "pRetry (attemptTask cfg (add_domain options) (add_retries cfg options)
          (opt_aborted options) taskFn) (add_retries cfg options) 1 [] (snd (Math_random q))"
  from assms have "rateLimited (requestDelay cfg) key (snd (Math_random q))"
    by (simp add: rateLimited_Math_random)
  from rateLimited_pRetry [OF this]
  have "rateLimited (requestDelay cfg) key (snd ?p)" .
  then show ?thesis
    by (cases ?p) (auto simp: add_def Let_def rateLimited_emitError split: sum.splits)
qed

lemma add_domain_without_url: "opt_url options = None \<Longrightarrow> add_domain options = ''unknown''"
  by (simp add: add_domain_def getDomain_def URL_hostname_def)

text \<open>
  C9. The claim: a task added without a \<open>url\<close> option, as every task of \<open>addBatch\<close> is,
  gets the destination key \<open>'unknown'\<close>, so all such tasks share one rate-limit state and
  are spaced at least \<open>requestDelay\<close> apart. The key is \<open>'unknown'\<close> indeed
  (\<open>add_domain_without_url\<close>), and the tasks share its state; but the three tasks of a
  batch, started together under the default \<open>maxConcurrent = 3\<close>, are not spaced: the
  second and the third are dispatched at the same instant. This is the defect of C2, met
  through \<open>addBatch\<close>.
\<close>

theorem batch_tasks_share_unknown_key_unspaced:
  "add_domain noOptions = ''unknown'' \<and>
   dispatchTimes ''unknown''
     (concurrentCallers defaultConfig (replicate 3 (add_domain noOptions)) (newQueue 1000000 []))
     = [1000000, 1001500, 1001500] \<and>
   \<not> spaced (requestDelay defaultConfig)
     (dispatchTimes ''unknown''
       (concurrentCallers defaultConfig (replicate 3 (add_domain noOptions))
          (newQueue 1000000 [])))"
proof -
  have u: "add_domain noOptions = ''unknown''"
    by (rule add_domain_without_url) (simp add: noOptions_def)
  have r: "replicate 3 ''unknown'' = [''unknown'', ''unknown'', ''unknown'']"
    by (simp add: numeral_3_eq_3)
  show ?thesis unfolding u r
    by (simp add: concurrentCallers_def enforceRateLimit_check_def enforceRateLimit_commit_def
        newQueue_def defaultConfig_def dispatchTimes_def Let_def)
qed

section \<open>Shutdown\<close>





section \<open>Progress records\<close>

lemma mutation_keeps_inactive:
  assumes "activeProgress t ident = None"
  shows "activeProgress (apply_mutation m t) ident = None \<and>
         completedProgress (apply_mutation m t) ident = completedProgress t ident"
  using assms
  by (cases m)
     (auto simp: updateProgress_def completeProgress_def pause_def resume_def cancel_def emit_def Let_def
           split: option.splits)

lemma mutations_keep_inactive:
  "activeProgress t ident = None \<Longrightarrow>
     activeProgress (apply_mutations ms t) ident = None \<and>
     completedProgress (apply_mutations ms t) ident = completedProgress t ident"
proof (induction ms arbitrary: t)
  case Nil
  then show ?case by simp
next
  case (Cons m ms)
  from mutation_keeps_inactive [OF Cons.prems, of m]
  have a: "activeProgress (apply_mutation m t) ident = None"
    and c: "completedProgress (apply_mutation m t) ident = completedProgress t ident"
    by simp_all
  from Cons.IH [OF a] c show ?case by simp
qed

lemma cancel_active:
  assumes "activeProgress t ident = Some entry"
  shows "activeProgress (cancel ident t) ident = None"
    and "completedProgress (cancel ident t) ident = Some (entry\<lparr>status := FAILED\<rparr>)"
  using assms by (simp_all add: cancel_def emit_def Let_def)

text \<open>
  C4. The claim: \<open>cancel\<close> leaves the record in a terminal Cancelled status, one of six
  statuses and distinct from Failed. The enum has five members, none of them Cancelled,
  and \<open>cancel\<close> sets \<open>DownloadStatus.FAILED\<close>.
\<close>

theorem cancel_status_is_FAILED_counterexample:
  "map_option status (completedProgress (cancel ''ch1'' exampleTracker) ''ch1'') = Some FAILED \<and>
   FAILED \<in> (UNIV :: DownloadStatus set) \<and>
   (UNIV :: DownloadStatus set) = {PENDING, DOWNLOADING, COMPLETED, FAILED, PAUSED}"
proof -
  have "(UNIV :: DownloadStatus set) = {PENDING, DOWNLOADING, COMPLETED, FAILED, PAUSED}"
    using DownloadStatus.exhaust by auto
  then show ?thesis
    by (simp add: exampleTracker_def start_def cancel_def emit_def emptyTracker_def Let_def)
qed

text \<open>
  C4, as the code has it: \<open>cancel\<close> moves an active record to the completed map with the
  status \<open>FAILED\<close>, and whatever calls of \<open>updateProgress\<close>, \<open>pause\<close>, \<open>resume\<close>,
  \<open>cancel\<close> and \<open>complete\<close> follow, for this or any other id, the record stays there
  as it is.
\<close>

theorem cancel_moves_to_completed_as_failed:
  assumes "activeProgress t ident = Some entry"
  shows "activeProgress (apply_mutations ms (cancel ident t)) ident = None \<and>
         completedProgress (apply_mutations ms (cancel ident t)) ident
           = Some (entry\<lparr>status := FAILED\<rparr>)"
  using mutations_keep_inactive [OF cancel_active(1) [OF assms], of ms] cancel_active(2) [OF assms]
  by simp

theorem cancel_moves_to_completed_as_failed_witness:
  "activeProgress exampleTracker ''ch1'' \<noteq> None \<and>
   activeProgress (apply_mutations [Resume ''ch1'', Complete ''ch1'' True 5000, Pause ''ch2'']
       (cancel ''ch1'' exampleTracker)) ''ch1'' = None \<and>
   map_option status (completedProgress
     (apply_mutations [Resume ''ch1'', Complete ''ch1'' True 5000, Pause ''ch2'']
       (cancel ''ch1'' exampleTracker)) ''ch1'') = Some FAILED"
proof -
  obtain entry where e: "activeProgress exampleTracker ''ch1'' = Some entry"
    by (simp add: exampleTracker_def start_def emit_def emptyTracker_def Let_def)
  from cancel_moves_to_completed_as_failed [OF e,
      of "[Resume ''ch1'', Complete ''ch1'' True 5000, Pause ''ch2'']"] e
  show ?thesis by simp
qed

text \<open>
  C10. For an id with no record in the active map, each of \<open>updateProgress\<close>, \<open>pause\<close>,
  \<open>resume\<close>, \<open>cancel\<close> and \<open>complete\<close> returns the tracker as it was: no record is
  created or changed in either map and no event is emitted.
\<close>

theorem mutation_without_record_is_noop:
  assumes "activeProgress t ident = None"
  shows "updateProgress ident page ad now t = t \<and> pause ident t = t \<and> resume ident t = t \<and>
         cancel ident t = t \<and> completeProgress ident success now t = t"
  using assms
  by (simp add: updateProgress_def pause_def resume_def cancel_def completeProgress_def)

theorem mutation_without_record_is_noop_witness:
  "activeProgress exampleTracker ''ch2'' = None \<and>
   updateProgress ''ch2'' 3 None 2000 exampleTracker = exampleTracker \<and>
   pause ''ch2'' exampleTracker = exampleTracker \<and>
   resume ''ch2'' exampleTracker = exampleTracker \<and>
   cancel ''ch2'' exampleTracker = exampleTracker \<and>
   completeProgress ''ch2'' True 2000 exampleTracker = exampleTracker"
proof -
  have n: "activeProgress exampleTracker ''ch2'' = None"
    by (simp add: exampleTracker_def start_def emit_def emptyTracker_def Let_def)
  from mutation_without_record_is_noop [OF n, of 3 None 2000 True] n
  show ?thesis by simp
qed

text \<open>
  C8. The claim: for every progress record, after \<open>complete(id, true)\<close> the current
  page does not exceed the total, and the ETA is zero whenever the current page has
  reached the total or the speed is not positive. \<open>complete\<close> returns at once for a
  record that is not in the active map: a record of ten pages updated to page 12 and
  then cancelled still has page 12 after \<open>complete(id, true)\<close>.
\<close>

theorem complete_after_cancel_keeps_page_counterexample:
  "map_option currentPage
     (completedProgress
        (completeProgress ''ch1'' True 5000
           (cancel ''ch1'' (updateProgress ''ch1'' 12 None 3000 exampleTracker))) ''ch1'')
     = Some 12 \<and>
   map_option totalPages
     (completedProgress
        (completeProgress ''ch1'' True 5000
           (cancel ''ch1'' (updateProgress ''ch1'' 12 None 3000 exampleTracker))) ''ch1'')
     = Some 10 \<and>
   activeProgress (cancel ''ch1'' (updateProgress ''ch1'' 12 None 3000 exampleTracker)) ''ch1''
     = None"
  by (simp add: exampleTracker_def start_def updateProgress_def cancel_def completeProgress_def
      calculateSpeed_def emit_def emptyTracker_def Let_def)

text \<open>
  C8, as the code has it: for a record in the active map, after \<open>complete(id, true)\<close>
  the record sits in the completed map with \<open>currentPage\<close> set to \<open>totalPages\<close>, so it
  does not exceed it, and its ETA is zero; and for any entry \<open>calculateETA\<close> is zero
  when \<open>currentPage \<ge> totalPages\<close> or the speed is zero or negative.
\<close>

theorem complete_success_clamps:
  assumes "activeProgress t ident = Some entry"
  shows "activeProgress (completeProgress ident True now t) ident = None \<and>
         (\<exists>e. completedProgress (completeProgress ident True now t) ident = Some e \<and>
              status e = COMPLETED \<and> totalPages e = totalPages entry \<and>
              currentPage e = totalPages e \<and> \<not> currentPage e > totalPages e \<and>
              calculateETA e = 0) \<and>
         (\<forall>e. currentPage e \<ge> totalPages e \<or> speed e \<le> 0 \<longrightarrow> calculateETA e = 0)"
  using assms by (auto simp: completeProgress_def emit_def Let_def calculateETA_def)

theorem complete_success_clamps_witness:
  "activeProgress (updateProgress ''ch1'' 12 None 3000 exampleTracker) ''ch1'' \<noteq> None \<and>
   map_option currentPage (activeProgress (updateProgress ''ch1'' 12 None 3000 exampleTracker) ''ch1'')
     = Some 12 \<and>
   map_option currentPage
     (completedProgress (completeProgress ''ch1'' True 4000
        (updateProgress ''ch1'' 12 None 3000 exampleTracker)) ''ch1'') = Some 10"
proof -
  obtain entry where e: "activeProgress (updateProgress ''ch1'' 12 None 3000 exampleTracker) ''ch1''
      = Some entry" and t: "totalPages entry = 10" and c: "currentPage entry = 12"
    by (simp add: exampleTracker_def start_def updateProgress_def calculateSpeed_def emit_def
        emptyTracker_def Let_def)
  from complete_success_clamps [OF e, of 4000] e t c
  show ?thesis by auto
qed

section \<open>Downloads\<close>

text \<open>
  C6. The claim: a response that is not an image, or a stream that ends with fewer bytes
  than a configured minimum, fails with an InvalidResponse error, and no file is left at
  the sink path. \<open>downloadSingleImage\<close> checks no byte count on the stream (the
  threshold of 1000 bytes is only for skipping a file that is already there): an image
  response of ten bytes succeeds and the file of ten bytes stays.
\<close>

theorem short_stream_succeeds_counterexample:
  "fst (downloadSingleImage ''http://h/a.jpg'' ''out/page-001.jpg'' ''jpg'' noDownloadOptions
          (AxiosResponse tinyImageResponse) None emptyDisk)
     = Inr \<lparr> result_success = True, result_downloadedBytes = 10 \<rparr> \<and>
   files (fst (snd (downloadSingleImage ''http://h/a.jpg'' ''out/page-001.jpg'' ''jpg''
          noDownloadOptions (AxiosResponse tinyImageResponse) None emptyDisk))) ''out/page-001.jpg''
     = Some 10"
  by (simp add: downloadSingleImage_def skipsExisting_def tryDownload_def tinyImageResponse_def
      noDownloadOptions_def emptyDisk_def Let_def)

lemma undeletable_tryDownload:
  "undeletable (fst (snd (tryDownload filepath sourceFormat options axios sharp fs)))
     = undeletable fs"
  by (auto simp: tryDownload_def convertImage_def unlinkSync_def Let_def
      split: axios_outcome.splits option.splits prod.splits if_splits)

lemma cleanupPartial_removes:
  assumes "filepath \<notin> set (undeletable fs)"
  shows "files (cleanupPartial filepath fs) filepath = None"
  using assms by (simp add: cleanupPartial_def existsSync_def unlinkSync_def)

text \<open>
  C6, as the code has it: when the file is not skipped and the response's content type
  does not contain \<open>image\<close> (or is absent), the call fails with a \<open>DownloadError\<close> of code
  \<open>DOWNLOAD_FAILED\<close> whose message wraps \<open>Invalid content type\<close>; and whenever the call
  fails and \<open>unlinkSync\<close> does not throw at the sink path, no file is left there.
\<close>

theorem downloadSingleImage_failure:
  "(\<not> skipsExisting filepath options fs \<and> axios = AxiosResponse response \<and>
      \<not> (case content_type response of Some ct \<Rightarrow> string_includes ct ''image'' | None \<Rightarrow> False)
    \<longrightarrow> fst (downloadSingleImage url filepath sourceFormat options axios sharp fs)
          = Inl (DownloadError ''Download failed: DownloadError: Invalid content type''
                   ''DOWNLOAD_FAILED'' (Some url) (Some filepath))) \<and>
   (fst (downloadSingleImage url filepath sourceFormat options axios sharp fs) = Inl e \<and>
      filepath \<notin> set (undeletable fs)
    \<longrightarrow> files (fst (snd (downloadSingleImage url filepath sourceFormat options axios sharp fs)))
          filepath = None)"
proof (intro conjI impI)
  assume "\<not> skipsExisting filepath options fs \<and> axios = AxiosResponse response \<and>
      \<not> (case content_type response of Some ct \<Rightarrow> string_includes ct ''image'' | None \<Rightarrow> False)"
  then show "fst (downloadSingleImage url filepath sourceFormat options axios sharp fs)
          = Inl (DownloadError ''Download failed: DownloadError: Invalid content type''
                   ''DOWNLOAD_FAILED'' (Some url) (Some filepath))"
    by (simp add: downloadSingleImage_def tryDownload_def)
next
  assume h: "fst (downloadSingleImage url filepath sourceFormat options axios sharp fs) = Inl e \<and>
      filepath \<notin> set (undeletable fs)"
  obtain r fs1 calls where t: "tryDownload filepath sourceFormat options axios sharp fs = (r, fs1, calls)"
    by (cases "tryDownload filepath sourceFormat options axios sharp fs") auto
  with undeletable_tryDownload [of filepath sourceFormat options axios sharp fs]
  have u: "undeletable fs1 = undeletable fs" by simp
  from h t have "fst (snd (downloadSingleImage url filepath sourceFormat options axios sharp fs))
      = cleanupPartial filepath fs1"
    by (auto simp: downloadSingleImage_def split: if_splits option.splits sum.splits)
  with h u show "files (fst (snd (downloadSingleImage url filepath sourceFormat options axios sharp fs)))
          filepath = None"
    by (simp add: cleanupPartial_removes)
qed

theorem downloadSingleImage_failure_witness:
  "\<not> skipsExisting ''out/page-001.jpg'' noDownloadOptions staleDisk \<and>
   ''out/page-001.jpg'' \<notin> set (undeletable staleDisk) \<and>
   files staleDisk ''out/page-001.jpg'' = Some 500 \<and>
   fst (downloadSingleImage ''http://h/a.jpg'' ''out/page-001.jpg'' ''jpg'' noDownloadOptions
          (AxiosResponse htmlResponse) None staleDisk)
     = Inl (DownloadError ''Download failed: DownloadError: Invalid content type''
              ''DOWNLOAD_FAILED'' (Some ''http://h/a.jpg'') (Some ''out/page-001.jpg'')) \<and>
   files (fst (snd (downloadSingleImage ''http://h/a.jpg'' ''out/page-001.jpg'' ''jpg''
          noDownloadOptions (AxiosResponse htmlResponse) None staleDisk))) ''out/page-001.jpg''
     = None"
proof -
  have a: "\<not> skipsExisting ''out/page-001.jpg'' noDownloadOptions staleDisk"
    and b: "''out/page-001.jpg'' \<notin> set (undeletable staleDisk)"
    and c: "files staleDisk ''out/page-001.jpg'' = Some 500"
    and d: "\<not> (case content_type htmlResponse of
                 Some ct \<Rightarrow> string_includes ct ''image'' | None \<Rightarrow> False)"
    by (simp_all add: skipsExisting_def noDownloadOptions_def staleDisk_def htmlResponse_def)
  from downloadSingleImage_failure [of "''out/page-001.jpg''" noDownloadOptions staleDisk
      "AxiosResponse htmlResponse" htmlResponse "''http://h/a.jpg''" "''jpg''" None
      "DownloadError ''Download failed: DownloadError: Invalid content type''
              ''DOWNLOAD_FAILED'' (Some ''http://h/a.jpg'') (Some ''out/page-001.jpg'')"]
    a b c d
  show ?thesis by simp
qed

end
